theory Spec2Isabelle
  imports Complex_Main "HOL-Library.AList" "HOL-Library.Sublist"
begin

section \<open>Conventions of the embedding\<close>

text \<open>
  The Python sources are embedded shallowly. A Python \<open>str\<close> is a \<open>string\<close> of ASCII
  characters, an unbounded \<open>int\<close> is \<open>int\<close>, a \<open>len\<close> is a \<open>nat\<close>, \<open>None\<close> in an
  \<open>Optional\<close> field is \<open>None\<close>. A \<open>float\<close> is the rational number it denotes (\<open>rat\<close>):
  the sources only multiply counts by the constants 1.0, 0.7, 0.5, 0.4, 0.3, divide sums by
  lengths and compare, and no NaN or infinity is ever produced. A \<open>dict\<close> is an association
  list in insertion order. Objects are values: a method that mutates \<open>self\<close> returns the new
  object. A raised exception is the \<open>Inl\<close> branch of a sum; the exception values are the
  instances of Python's \<open>Exception\<close>, given by class name and message (\<open>str(e)\<close>).
  Interpreter signals outside \<open>Exception\<close> (\<open>KeyboardInterrupt\<close>, \<open>SystemExit\<close>) arrive
  asynchronously and are not part of the model.
\<close>

type_synonym 'v pydict = "(string \<times> 'v) list"

datatype pyexc = Exc (exc_class: string) (exc_message: string)

text \<open>\<open>d.get(k, default)\<close>\<close>

definition dict_get :: "('k \<times> 'v) list \<Rightarrow> 'k \<Rightarrow> 'v \<Rightarrow> 'v" where
  "dict_get d k dflt = (case map_of d k of None \<Rightarrow> dflt | Some v \<Rightarrow> v)"

text \<open>\<open>x / n\<close> for a length \<open>n\<close>: true division raises on a zero divisor.\<close>

definition truediv :: "rat \<Rightarrow> nat \<Rightarrow> pyexc + rat" where
  "truediv x n = (if n = 0 then Inl (Exc ''ZeroDivisionError'' ''division by zero'')
                  else Inr (x / of_nat n))"

subsection \<open>String methods\<close>

definition upper_letters :: string where
  "upper_letters = ''ABCDEFGHIJKLMNOPQRSTUVWXYZ''"

definition lower_letters :: string where
  "lower_letters = ''abcdefghijklmnopqrstuvwxyz''"

definition lower_char :: "char \<Rightarrow> char" where
  "lower_char c = (case map_of (zip upper_letters lower_letters) c of None \<Rightarrow> c | Some l \<Rightarrow> l)"

definition upper_char :: "char \<Rightarrow> char" where
  "upper_char c = (case map_of (zip lower_letters upper_letters) c of None \<Rightarrow> c | Some u \<Rightarrow> u)"

text \<open>
  \<open>s.lower()\<close> on a string of ASCII characters: the letters A to Z are lowered, every
  other character is kept. Python's method also changes letters outside ASCII, which the
  strings of this model do not hold; a statement that depends on it is stated for ASCII
  strings.
\<close>

definition lower :: "string \<Rightarrow> string" where
  "lower s = map lower_char s"

text \<open>\<open>sub in s\<close> for strings: \<open>sub\<close> occurs in \<open>s\<close> as a contiguous substring.\<close>

fun py_in :: "string \<Rightarrow> string \<Rightarrow> bool" where
  "py_in sub [] = (sub = [])"
| "py_in sub (c # cs) = (prefix sub (c # cs) \<or> py_in sub cs)"

text \<open>\<open>s.strip()\<close> removes the ASCII whitespace characters at both ends.\<close>

definition whitespace :: string where
  "whitespace = [CHR 0x09, CHR 0x0A, CHR 0x0B, CHR 0x0C, CHR 0x0D,
                 CHR 0x1C, CHR 0x1D, CHR 0x1E, CHR 0x1F, CHR '' '']"

definition strip :: "string \<Rightarrow> string" where
  "strip s = rev (dropWhile (\<lambda>c. c \<in> set whitespace)
                   (rev (dropWhile (\<lambda>c. c \<in> set whitespace) s)))"

text \<open>\<open>s.split(sep)\<close> for a one-character separator.\<close>

fun split_on :: "char \<Rightarrow> string \<Rightarrow> string list" where
  "split_on sep [] = [[]]"
| "split_on sep (c # cs) =
     (if c = sep then [] # split_on sep cs
      else (case split_on sep cs of w # ws \<Rightarrow> (c # w) # ws | [] \<Rightarrow> [[c]]))"

text \<open>
  \<open>s.title()\<close>: a letter that follows a letter is lowered, any other letter is raised,
  other characters are kept.
\<close>

definition is_alpha :: "char \<Rightarrow> bool" where
  "is_alpha c \<longleftrightarrow> c \<in> set upper_letters \<or> c \<in> set lower_letters"

fun title_from :: "bool \<Rightarrow> string \<Rightarrow> string" where
  "title_from prev [] = []"
| "title_from prev (c # cs) =
     (if is_alpha c then (if prev then lower_char c else upper_char c) # title_from True cs
      else c # title_from False cs)"

definition title :: "string \<Rightarrow> string" where
  "title s = title_from False s"

text \<open>\<open>s[a:b]\<close> for indices within \<open>0 .. len(s)\<close>.\<close>

definition slice :: "string \<Rightarrow> nat \<Rightarrow> nat \<Rightarrow> string" where
  "slice s a b = take (b - a) (drop a s)"

subsection \<open>The regular expressions the sources use\<close>

text \<open>
  The patterns of the document parser's vocabulary are sequences of literal characters
  and character classes such as \<open>[Ss]\<close>; none is empty. They are matched with
  \<open>re.IGNORECASE\<close>: a subject character matches an item when the two agree up to case.
  \<open>re.finditer\<close> scans from the left and yields the (start, end) of every match, the
  search resuming at the end of the previous match.
\<close>

datatype pat_item = Lit char | Cls "char list"

definition lits :: "string \<Rightarrow> pat_item list" where
  "lits s = map Lit s"

fun item_matches :: "pat_item \<Rightarrow> char \<Rightarrow> bool" where
  "item_matches (Lit q) c = (lower_char q = lower_char c)"
| "item_matches (Cls qs) c = list_ex (\<lambda>q. lower_char q = lower_char c) qs"

fun match_here :: "pat_item list \<Rightarrow> string \<Rightarrow> bool" where
  "match_here [] s = True"
| "match_here (p # ps) [] = False"
| "match_here (p # ps) (c # cs) = (item_matches p c \<and> match_here ps cs)"

function finditer_from :: "pat_item list \<Rightarrow> nat \<Rightarrow> string \<Rightarrow> (nat \<times> nat) list" where
  "finditer_from pat i [] = []"
| "finditer_from pat i (c # cs) =
     (if match_here pat (c # cs)
      then (i, i + length pat)
           # finditer_from pat (i + max 1 (length pat)) (drop (max 1 (length pat) - 1) cs)
      else finditer_from pat (Suc i) cs)"
  by pat_completeness auto
termination
  by (relation "measure (\<lambda>(pat, i, s). length s)") auto

definition finditer :: "pat_item list \<Rightarrow> string \<Rightarrow> (nat \<times> nat) list" where
  "finditer pat s = finditer_from pat 0 s"

section \<open>The citation tracker (citation\_tracker.py)\<close>

record Citation =
  source_type :: string
  cit_facility_id :: "string option"
  cit_facility_name :: "string option"
  field_name :: "string option"
  field_value :: "string option"
  row_number :: "int option"
  cit_confidence :: rat

record 'v AgentStep =
  step_number :: int
  step_name :: string
  step_description :: string
  input_data :: "'v pydict"
  output_data :: "'v pydict"
  citations :: "Citation list"
  timestamp :: string
  duration_ms :: "rat option"

record 'v CitationTracker =
  steps :: "'v AgentStep list"
  current_step_number :: int

text \<open>\<open>CitationTracker.__init__\<close>\<close>

definition init_tracker :: "'v CitationTracker" where
  "init_tracker = \<lparr>steps = [], current_step_number = 0\<rparr>"

text \<open>\<open>AgentStep.add_citation\<close>\<close>

definition add_citation :: "Citation \<Rightarrow> 'v AgentStep \<Rightarrow> 'v AgentStep" where
  "add_citation c s = s\<lparr>citations := citations s @ [c]\<rparr>"

text \<open>
  \<open>CitationTracker.start_step\<close>. The default of the \<open>timestamp\<close> field reads the clock;
  the reading is the argument \<open>now\<close>. The result is the returned step number and the
  tracker after the call.
\<close>

definition start_step ::
  "string \<Rightarrow> string \<Rightarrow> 'v pydict \<Rightarrow> string \<Rightarrow> 'v CitationTracker \<Rightarrow> int \<times> 'v CitationTracker" where
  "start_step nm descr inp now t =
     (let n = current_step_number t + 1;
          step = \<lparr>step_number = n, step_name = nm, step_description = descr,
                  input_data = inp, output_data = [], citations = [],
                  timestamp = now, duration_ms = None\<rparr>
      in (n, t\<lparr>steps := steps t @ [step], current_step_number := n\<rparr>))"

text \<open>
  \<open>CitationTracker._get_step\<close> returns a reference to the first step of \<open>self.steps\<close>
  with the given number, or \<open>None\<close>. The reference is the position in the list.
\<close>

fun get_step_index :: "'v AgentStep list \<Rightarrow> int \<Rightarrow> nat option" where
  "get_step_index [] n = None"
| "get_step_index (s # ss) n =
     (if step_number s = n then Some 0 else map_option Suc (get_step_index ss n))"

definition get_step :: "'v CitationTracker \<Rightarrow> int \<Rightarrow> 'v AgentStep option" where
  "get_step t n = map_option (\<lambda>i. steps t ! i) (get_step_index (steps t) n)"

text \<open>\<open>CitationTracker.end_step\<close>: \<open>if step:\<close> is true for every step object.\<close>

definition end_step ::
  "int \<Rightarrow> 'v pydict \<Rightarrow> rat option \<Rightarrow> 'v CitationTracker \<Rightarrow> 'v CitationTracker" where
  "end_step n out dur t =
     (case get_step_index (steps t) n of
        None \<Rightarrow> t
      | Some i \<Rightarrow>
          t\<lparr>steps := (steps t)[i := (steps t ! i)\<lparr>output_data := out, duration_ms := dur\<rparr>]\<rparr>)"

text \<open>\<open>CitationTracker.add_citation_to_step\<close>\<close>

definition add_citation_to_step ::
  "int \<Rightarrow> Citation \<Rightarrow> 'v CitationTracker \<Rightarrow> 'v CitationTracker" where
  "add_citation_to_step n c t =
     (case get_step_index (steps t) n of
        None \<Rightarrow> t
      | Some i \<Rightarrow> t\<lparr>steps := (steps t)[i := add_citation c (steps t ! i)]\<rparr>)"

text \<open>\<open>CitationTracker.add_facility_citation\<close>\<close>

definition add_facility_citation ::
  "int \<Rightarrow> string \<Rightarrow> string \<Rightarrow> string \<Rightarrow> string \<Rightarrow> int \<Rightarrow> rat \<Rightarrow>
   'v CitationTracker \<Rightarrow> 'v CitationTracker" where
  "add_facility_citation n fid fname fld val row conf t =
     add_citation_to_step n
       \<lparr>source_type = ''facility_row'', cit_facility_id = Some fid,
        cit_facility_name = Some fname, field_name = Some fld, field_value = Some val,
        row_number = Some row, cit_confidence = conf\<rparr> t"

text \<open>
  A run of a ledger: any sequence of calls of its writing methods on one instance.
  \<open>run_ops\<close> returns the numbers that the \<open>start_step\<close> calls returned, in call order,
  and the tracker after the last call.
\<close>

datatype 'v tracker_op =
    StartStep string string "'v pydict" string
  | EndStep int "'v pydict" "rat option"
  | AddCitation int Citation

fun run_ops :: "'v tracker_op list \<Rightarrow> 'v CitationTracker \<Rightarrow> int list \<times> 'v CitationTracker" where
  "run_ops [] t = ([], t)"
| "run_ops (StartStep nm descr inp now # ops) t =
     (let (n, t') = start_step nm descr inp now t;
          (ns, t'') = run_ops ops t'
      in (n # ns, t''))"
| "run_ops (EndStep n out dur # ops) t = run_ops ops (end_step n out dur t)"
| "run_ops (AddCitation n c # ops) t = run_ops ops (add_citation_to_step n c t)"

fun is_start :: "'v tracker_op \<Rightarrow> bool" where
  "is_start (StartStep _ _ _ _) = True"
| "is_start _ = False"

text \<open>A ledger with one started step, numbered 1.\<close>

definition example_ledger :: "string CitationTracker" where
  "example_ledger =
     snd (start_step ''data_analysis'' ''Analyze facilities'' [] ''2024-01-01T00:00:00'' init_tracker)"

section \<open>The document parser (document\_parser.py)\<close>

record MedicalCapability =
  capability_type :: string
  name :: string
  status :: string
  confidence :: rat
  source_text :: string
  mc_facility_id :: string

record FacilityProfile =
  facility_id :: string
  facility_name :: string
  region :: string
  district :: string
  coordinates :: "rat \<times> rat"
  facility_type :: string
  specialties :: "string list"
  equipment :: "string list"
  procedures :: "string list"
  gaps :: "string list"
  urgent_needs :: "string list"
  suspicious_claims :: "string list"
  capabilities :: "MedicalCapability list"
  capability_score :: rat
  desert_risk_score :: rat

subsection \<open>\<open>IntelligentDocumentParser._compute_scores\<close>\<close>

definition type_weights :: "(string \<times> rat) list" where
  "type_weights = [(''Teaching Hospital'', 1), (''Regional Hospital'', 7 / 10),
                   (''District Hospital'', 4 / 10), (''Mission Hospital'', 5 / 10)]"

definition critical_missing :: "string list" where
  "critical_missing = [''CT Scanner'', ''MRI'', ''ICU'', ''Operating Theater'']"

text \<open>
  The method assigns \<open>capability_score\<close>, then accumulates the integer \<open>desert_factors\<close>
  in three steps and assigns \<open>desert_risk_score\<close>. Every other field is left as it is.
\<close>

definition compute_scores :: "FacilityProfile \<Rightarrow> FacilityProfile" where
  "compute_scores profile =
     (let specialty_count = length (specialties profile);
          equipment_count = length (equipment profile);
          procedure_count = length (procedures profile);
          base_weight = dict_get type_weights (facility_type profile) (3 / 10);
          score = min 100 (of_nat (specialty_count * 5 + equipment_count * 3 + procedure_count * 2)
                            * base_weight);
          profile = profile\<lparr>capability_score := score\<rparr>;
          desert_factors = (0::int);
          desert_factors = (if capability_score profile < 30 then desert_factors + 30
                            else if capability_score profile < 50 then desert_factors + 15
                            else desert_factors);
          desert_factors = desert_factors + min 30 (int (length (gaps profile)) * 5);
          desert_factors =
            fold (\<lambda>critical d.
                    if \<not> list_ex (\<lambda>eq. py_in (lower critical) (lower eq)) (equipment profile)
                    then d + 10 else d)
                 critical_missing desert_factors
      in profile\<lparr>desert_risk_score := of_int (min 100 desert_factors)\<rparr>)"

subsection \<open>The scoring formulas as the specification words them\<close>

text \<open>
  These follow the specification's sentences, not the code; the theorems below compare
  them with \<open>compute_scores\<close>.
\<close>

definition spec_type_weight :: "string \<Rightarrow> rat" where
  "spec_type_weight ft =
     (if ft = ''Teaching Hospital'' then 1
      else if ft = ''Regional Hospital'' then 7 / 10
      else if ft = ''Mission Hospital'' then 5 / 10
      else if ft = ''District Hospital'' then 4 / 10
      else 3 / 10)"

definition spec_capability_score :: "nat \<Rightarrow> nat \<Rightarrow> nat \<Rightarrow> string \<Rightarrow> rat" where
  "spec_capability_score n_spec n_equip n_proc ft =
     min 100 ((5 * of_nat n_spec + 3 * of_nat n_equip + 2 * of_nat n_proc) * spec_type_weight ft)"

definition spec_base :: "rat \<Rightarrow> int" where
  "spec_base cs = (if cs < 30 then 30 else if cs < 50 then 15 else 0)"

definition spec_gap_penalty :: "nat \<Rightarrow> int" where
  "spec_gap_penalty n_gaps = min 30 (5 * int n_gaps)"

definition spec_present :: "string \<Rightarrow> string list \<Rightarrow> bool" where
  "spec_present item equip = list_ex (\<lambda>eq. py_in (lower item) (lower eq)) equip"

definition spec_missing_critical_penalty :: "string list \<Rightarrow> int" where
  "spec_missing_critical_penalty equip =
     10 * int (length (filter (\<lambda>item. \<not> spec_present item equip)
                               [''CT scanner'', ''MRI'', ''ICU'', ''operating theater'']))"

text \<open>
  The profile of the specification's scenario: a District Hospital with two specialties,
  equipment CT Scanner and ICU, no procedures and two gaps.
\<close>

definition example_profile :: FacilityProfile where
  "example_profile =
     \<lparr>facility_id = ''FAC042'', facility_name = ''Example District Hospital'',
      region = ''Northern'', district = ''Tamale'', coordinates = (9, -1),
      facility_type = ''District Hospital'',
      specialties = [''Cardiology'', ''General Surgery''],
      equipment = [''CT Scanner'', ''ICU''], procedures = [],
      gaps = [''Staff shortage: neurosurgeons'', ''MRI broken/awaiting repair''],
      urgent_needs = [], suspicious_claims = [], capabilities = [],
      capability_score = 0, desert_risk_score = 0\<rparr>"

subsection \<open>\<open>identify_medical_deserts\<close>\<close>

text \<open>
  One entry of the returned list (a dict in the source). \<open>critical_gaps\<close> is
  \<open>list(set(...))\<close>, whose order Python does not fix: it is kept as the set.
\<close>

record DesertEntry =
  de_region :: string
  de_desert_risk_score :: rat
  avg_capability_score :: rat
  facility_count :: nat
  total_gaps :: nat
  facilities :: "string list"
  critical_gaps :: "string set"

text \<open>
  The body of the grouping loop: \<open>if region not in region_data: region_data[region] = []\<close>,
  then \<open>region_data[region].append(profile)\<close>.
\<close>

definition add_to_region ::
  "FacilityProfile \<Rightarrow> (string \<times> FacilityProfile list) list
   \<Rightarrow> (string \<times> FacilityProfile list) list" where
  "add_to_region profile region_data =
     (let r = region profile;
          region_data = (if map_of region_data r = None then region_data @ [(r, [])]
                         else region_data)
      in AList.map_entry r (\<lambda>fs. fs @ [profile]) region_data)"

definition group_by_region :: "FacilityProfile list \<Rightarrow> (string \<times> FacilityProfile list) list" where
  "group_by_region profiles = fold add_to_region profiles []"

text \<open>The analysis loop over \<open>region_data.items()\<close>, appending to \<open>deserts\<close>.\<close>

fun analyze_regions ::
  "(string \<times> FacilityProfile list) list \<Rightarrow> rat \<Rightarrow> DesertEntry list
   \<Rightarrow> pyexc + DesertEntry list" where
  "analyze_regions [] threshold deserts = Inr deserts"
| "analyze_regions ((r, fs) # rest) threshold deserts =
     (case truediv (sum_list (map desert_risk_score fs)) (length fs) of
        Inl e \<Rightarrow> Inl e
      | Inr avg_desert_score \<Rightarrow>
         (case truediv (sum_list (map capability_score fs)) (length fs) of
            Inl e \<Rightarrow> Inl e
          | Inr avg_capability \<Rightarrow>
             (let total = sum_list (map (\<lambda>f. length (gaps f)) fs) in
              analyze_regions rest threshold
                (if avg_desert_score \<ge> threshold
                 then deserts @
                   [\<lparr>de_region = r, de_desert_risk_score = avg_desert_score,
                     avg_capability_score = avg_capability, facility_count = length fs,
                     total_gaps = total, facilities = map facility_name fs,
                     critical_gaps = set (concat (map gaps fs))\<rparr>]
                 else deserts))))"

text \<open>
  \<open>sorted(xs, key=key, reverse=True)\<close>: CPython reverses, sorts stably in ascending
  order and reverses again, so equal keys keep their order.
\<close>

definition sorted_reverse :: "('a \<Rightarrow> rat) \<Rightarrow> 'a list \<Rightarrow> 'a list" where
  "sorted_reverse key xs = rev (sort_key key (rev xs))"

definition identify_medical_deserts ::
  "FacilityProfile list \<Rightarrow> rat \<Rightarrow> pyexc + DesertEntry list" where
  "identify_medical_deserts profiles threshold =
     (case analyze_regions (group_by_region profiles) threshold [] of
        Inl e \<Rightarrow> Inl e
      | Inr deserts \<Rightarrow> Inr (sorted_reverse de_desert_risk_score deserts))"

text \<open>The default of the \<open>threshold\<close> parameter.\<close>

definition default_threshold :: rat where
  "default_threshold = 60"

text \<open>
  The specification's side of the classification: the facilities of a region and the
  average of their desert-risk scores.
\<close>

definition region_facilities :: "FacilityProfile list \<Rightarrow> string \<Rightarrow> FacilityProfile list" where
  "region_facilities profiles r = filter (\<lambda>p. region p = r) profiles"

definition spec_average_risk :: "FacilityProfile list \<Rightarrow> string \<Rightarrow> rat" where
  "spec_average_risk profiles r =
     sum_list (map desert_risk_score (region_facilities profiles r))
       / of_nat (length (region_facilities profiles r))"

text \<open>The entry that the analysis loop appends for a region with facilities \<open>fs\<close>.\<close>

definition region_entry :: "string \<Rightarrow> FacilityProfile list \<Rightarrow> DesertEntry" where
  "region_entry r fs =
     \<lparr>de_region = r,
      de_desert_risk_score = sum_list (map desert_risk_score fs) / of_nat (length fs),
      avg_capability_score = sum_list (map capability_score fs) / of_nat (length fs),
      facility_count = length fs,
      total_gaps = sum_list (map (\<lambda>f. length (gaps f)) fs),
      facilities = map facility_name fs,
      critical_gaps = set (concat (map gaps fs))\<rparr>"

text \<open>Scored profiles for the specification's regional scenario.\<close>

definition scored_profile :: "string \<Rightarrow> string \<Rightarrow> rat \<Rightarrow> FacilityProfile" where
  "scored_profile nm r risk =
     \<lparr>facility_id = nm, facility_name = nm, region = r, district = '''', coordinates = (0, 0),
      facility_type = ''District Hospital'', specialties = [], equipment = [], procedures = [],
      gaps = [], urgent_needs = [], suspicious_claims = [], capabilities = [],
      capability_score = 0, desert_risk_score = risk\<rparr>"

definition north_low :: "FacilityProfile list" where
  "north_low = [scored_profile ''A'' ''North'' 80, scored_profile ''B'' ''North'' 55,
                scored_profile ''C'' ''North'' 40]"

definition north_high :: "FacilityProfile list" where
  "north_high = [scored_profile ''A'' ''North'' 80, scored_profile ''B'' ''North'' 60,
                 scored_profile ''C'' ''North'' 40]"

subsection \<open>\<open>IntelligentDocumentParser\<close>: the extraction of capabilities\<close>

definition specialty_patterns :: "pat_item list list" where
  "specialty_patterns =
     map lits [''cardiology'', ''neurosurgery'', ''oncology'', ''pediatrics'',
               ''orthopedics'', ''obstetrics'', ''internal medicine'', ''emergency'',
               ''ophthalmology'', ''dentistry'', ''general medicine'', ''surgery'']"

definition equipment_patterns :: "pat_item list list" where
  "equipment_patterns =
     [lits ''MRI'', lits ''CT '' @ [Cls ''Ss''] @ lits ''canner'',
      lits ''X-'' @ [Cls ''Rr''] @ lits ''ay'', [Cls ''Uu''] @ lits ''ltrasound'',
      lits ''ventilator'', lits ''ICU'', lits ''operating theater'',
      lits ''catheterization lab'', lits ''blood bank'', lits ''laboratory'',
      lits ''ambulance'']"

text \<open>The four text fields that \<open>extract_capabilities\<close> reads from the row.\<close>

record text_fields =
  tf_specialties :: string
  tf_equipment :: string
  tf_procedures :: string
  tf_staff_notes :: string

text \<open>The profile as \<open>extract_capabilities\<close> creates it, with the model's defaults.\<close>

definition new_profile ::
  "string \<Rightarrow> string \<Rightarrow> string \<Rightarrow> string \<Rightarrow> rat \<times> rat \<Rightarrow> string \<Rightarrow> FacilityProfile" where
  "new_profile fid fname reg distr coords ftype =
     \<lparr>facility_id = fid, facility_name = fname, region = reg, district = distr,
      coordinates = coords, facility_type = ftype, specialties = [], equipment = [],
      procedures = [], gaps = [], urgent_needs = [], suspicious_claims = [],
      capabilities = [], capability_score = 0, desert_risk_score = 0\<rparr>"

definition structured_capability :: "string \<Rightarrow> string \<Rightarrow> string \<Rightarrow> string \<Rightarrow> MedicalCapability" where
  "structured_capability ctype field fid item =
     \<lparr>capability_type = ctype, name = item, status = ''available'', confidence = 95 / 100,
      source_text = field, mc_facility_id = fid\<rparr>"

text \<open>\<open>_extract_structured_fields\<close>: three blocks, each guarded by the field being non-empty.\<close>

definition extract_structured_fields ::
  "FacilityProfile \<Rightarrow> text_fields \<Rightarrow> string \<Rightarrow> FacilityProfile" where
  "extract_structured_fields profile tf fid =
     (let profile =
            (if tf_specialties tf \<noteq> []
             then (let items = map strip (split_on CHR '','' (tf_specialties tf))
                   in profile\<lparr>specialties := items,
                        capabilities := capabilities profile
                          @ map (structured_capability ''specialty'' (tf_specialties tf) fid)
                                items\<rparr>)
             else profile);
          profile =
            (if tf_equipment tf \<noteq> []
             then (let items = map strip (split_on CHR '','' (tf_equipment tf))
                   in profile\<lparr>equipment := items,
                        capabilities := capabilities profile
                          @ map (structured_capability ''equipment'' (tf_equipment tf) fid)
                                items\<rparr>)
             else profile)
      in (if tf_procedures tf \<noteq> []
          then (let items = map strip (split_on CHR '','' (tf_procedures tf))
                in profile\<lparr>procedures := items,
                     capabilities := capabilities profile
                       @ map (structured_capability ''procedure'' (tf_procedures tf) fid)
                             items\<rparr>)
          else profile))"

text \<open>
  \<open>_extract_from_notes\<close>, the specialty loop: one capability for every match of every
  pattern whose text is not among the lowered structured specialties.
\<close>

definition note_specialties ::
  "FacilityProfile \<Rightarrow> string \<Rightarrow> string \<Rightarrow> MedicalCapability list" where
  "note_specialties profile notes fid =
     (let notes_lower = lower notes in
      concat (map (\<lambda>pattern.
        concat (map (\<lambda>(s, e).
          (let specialty = slice notes_lower s e in
           if specialty \<notin> set (map lower (specialties profile))
           then [\<lparr>capability_type = ''specialty'', name = title specialty,
                   status = ''mentioned'', confidence = 7 / 10, source_text = notes,
                   mc_facility_id = fid\<rparr>]
           else []))
          (finditer pattern notes_lower)))
        specialty_patterns))"

text \<open>The equipment loop: one capability for every match of every pattern, unconditionally.\<close>

definition note_equipment :: "string \<Rightarrow> string \<Rightarrow> MedicalCapability list" where
  "note_equipment notes fid =
     (let notes_lower = lower notes in
      concat (map (\<lambda>pattern.
        map (\<lambda>(s, e).
          (let equip = slice notes_lower s e;
               context_start = s - 50;
               context_end = min (length notes) (e + 50);
               context = lower (slice notes context_start context_end);
               st = (if py_in ''broke'' context \<or> py_in ''broken'' context
                        \<or> py_in ''not working'' context then ''broken''
                     else if py_in (''no '' @ lower equip) context then ''unavailable''
                     else ''available'')
           in \<lparr>capability_type = ''equipment'', name = equip, status = st,
                confidence = 8 / 10, source_text = context, mc_facility_id = fid\<rparr>))
          (finditer pattern notes_lower))
        equipment_patterns))"

definition extract_from_notes :: "FacilityProfile \<Rightarrow> string \<Rightarrow> string \<Rightarrow> FacilityProfile" where
  "extract_from_notes profile notes fid =
     (if notes = [] \<or> notes = ''nan'' then profile
      else profile\<lparr>capabilities := capabilities profile
                       @ note_specialties profile notes fid @ note_equipment notes fid\<rparr>)"

text \<open>
  The capability list that \<open>extract_capabilities\<close> returns in the profile: the two steps
  above in order. The later steps (\<open>_detect_gaps\<close>, \<open>_compute_scores\<close>) do not touch
  \<open>capabilities\<close>.
\<close>

definition extracted_capabilities :: "string \<Rightarrow> string \<Rightarrow> text_fields \<Rightarrow> MedicalCapability list" where
  "extracted_capabilities fid ftype tf =
     capabilities
       (extract_from_notes
          (extract_structured_fields (new_profile fid '''' '''' '''' (0, 0) ftype) tf fid)
          (tf_staff_notes tf) fid)"

text \<open>The fields of the specification's scenario with the MRI note.\<close>

definition mri_fields :: text_fields where
  "mri_fields =
     \<lparr>tf_specialties = ''Cardiology, General Surgery'', tf_equipment = ''MRI, ICU'',
      tf_procedures = '''', tf_staff_notes = ''Our MRI broke down last month''\<rparr>"


text \<open>A row whose equipment field lists the same item in two spellings, and no notes.\<close>

definition repeated_fields :: text_fields where
  "repeated_fields =
     \<lparr>tf_specialties = '''', tf_equipment = ''MRI, mri'', tf_procedures = '''',
      tf_staff_notes = ''''\<rparr>"

section \<open>The extraction agent (extraction\_agent.py)\<close>

text \<open>
  A Python value as \<open>json.loads\<close> produces it. The fields of an \<open>ExtractedCapability\<close>
  built from the provider's answer hold such values unchecked, so \<open>name\<close>, \<open>details\<close> and
  \<open>quantity\<close> are of this type (\<open>PyNone\<close> for \<open>None\<close>).
\<close>

datatype pyval =
    PyNone
  | PyBool bool
  | PyInt int
  | PyFloat rat
  | PyStr string
  | PyList "pyval list"
  | PyDict "(string \<times> pyval) list"

record ExtractedCapability =
  ec_capability_type :: string
  ec_name :: pyval
  details :: pyval
  quantity :: pyval
  ec_status :: "string option"
  ec_confidence :: rat

subsection \<open>\<open>ExtractionAgent._calculate_capability_score\<close>\<close>

definition calculate_capability_score ::
  "ExtractedCapability list \<Rightarrow> ExtractedCapability list \<Rightarrow> ExtractedCapability list \<Rightarrow> rat" where
  "calculate_capability_score procs equip specs =
     (let score = (0::rat);
          operational_equipment = filter (\<lambda>e. ec_status e = Some ''operational'') equip;
          score = score + of_nat (length operational_equipment) * 3;
          score = score + of_nat (length procs) * 5;
          score = score + of_nat (length specs) * 4
      in min 100 score)"

text \<open>Capabilities as the rule-based extractors of the agent build them.\<close>

definition rule_equipment :: "string \<Rightarrow> ExtractedCapability" where
  "rule_equipment nm =
     \<lparr>ec_capability_type = ''equipment'', ec_name = PyStr nm, details = PyNone,
      quantity = PyNone, ec_status = Some ''operational'', ec_confidence = 85 / 100\<rparr>"

definition rule_specialty :: "string \<Rightarrow> string \<Rightarrow> ExtractedCapability" where
  "rule_specialty nm ctx =
     \<lparr>ec_capability_type = ''specialty'', ec_name = PyStr nm, details = PyStr ctx,
      quantity = PyNone, ec_status = None, ec_confidence = 9 / 10\<rparr>"

subsection \<open>\<open>ExtractionAgent._deduplicate_capabilities\<close>\<close>

definition py_type_name :: "pyval \<Rightarrow> string" where
  "py_type_name v =
     (case v of PyNone \<Rightarrow> ''NoneType'' | PyBool _ \<Rightarrow> ''bool'' | PyInt _ \<Rightarrow> ''int''
      | PyFloat _ \<Rightarrow> ''float'' | PyStr _ \<Rightarrow> ''str'' | PyList _ \<Rightarrow> ''list''
      | PyDict _ \<Rightarrow> ''dict'')"

text \<open>
  \<open>cap.name.lower()\<close>: only a \<open>str\<close> has the method; on any other value the attribute
  lookup raises.
\<close>

definition name_lower :: "ExtractedCapability \<Rightarrow> pyexc + string" where
  "name_lower cap =
     (case ec_name cap of
        PyStr s \<Rightarrow> Inr (lower s)
      | v \<Rightarrow> Inl (Exc ''AttributeError''
                    (py_type_name v @ '' object has no attribute lower'')))"

text \<open>
  The loop over \<open>capabilities\<close> with the dict \<open>seen\<close>. Assigning to a key that is present
  keeps its position, assigning to a new key appends (insertion order), which is what
  \<open>AList.update\<close> does.
\<close>

fun dedup_loop ::
  "ExtractedCapability list \<Rightarrow> (string \<times> ExtractedCapability) list
   \<Rightarrow> pyexc + (string \<times> ExtractedCapability) list" where
  "dedup_loop [] seen = Inr seen"
| "dedup_loop (cap # caps) seen =
     (case name_lower cap of
        Inl e \<Rightarrow> Inl e
      | Inr key \<Rightarrow>
          (case map_of seen key of
             None \<Rightarrow> dedup_loop caps (AList.update key cap seen)
           | Some old \<Rightarrow>
               if ec_confidence cap > ec_confidence old
               then dedup_loop caps (AList.update key cap seen)
               else dedup_loop caps seen))"

text \<open>\<open>return list(seen.values())\<close>\<close>

definition deduplicate_capabilities ::
  "ExtractedCapability list \<Rightarrow> pyexc + ExtractedCapability list" where
  "deduplicate_capabilities caps =
     (case dedup_loop caps [] of Inl e \<Rightarrow> Inl e | Inr seen \<Rightarrow> Inr (map snd seen))"

fun is_str :: "pyval \<Rightarrow> bool" where
  "is_str (PyStr _) = True"
| "is_str _ = False"

text \<open>
  The names on which \<open>lower\<close> of this model is Python's \<open>str.lower\<close>: the strings of
  ASCII characters.
\<close>

fun is_ascii_str :: "pyval \<Rightarrow> bool" where
  "is_ascii_str (PyStr s) = list_all (\<lambda>ch. (of_char ch :: nat) < 128) s"
| "is_ascii_str _ = False"

text \<open>A procedure as the rule-based extractor builds it, and as the provider path does.\<close>

definition rule_procedure :: "string \<Rightarrow> string \<Rightarrow> ExtractedCapability" where
  "rule_procedure nm ctx =
     \<lparr>ec_capability_type = ''procedure'', ec_name = PyStr nm, details = PyStr ctx,
      quantity = PyNone, ec_status = None, ec_confidence = 9 / 10\<rparr>"

definition llm_procedure :: "pyval \<Rightarrow> pyval \<Rightarrow> pyval \<Rightarrow> ExtractedCapability" where
  "llm_procedure nm vol cx =
     \<lparr>ec_capability_type = ''procedure'', ec_name = nm, details = cx,
      quantity = vol, ec_status = None, ec_confidence = 8 / 10\<rparr>"

subsection \<open>\<open>ExtractionAgent._llm_extract_procedures\<close>\<close>

text \<open>
  The provider is the client of the \<open>anthropic\<close> package, which is not part of the
  repository: \<open>self.client.messages.create\<close> is a parameter. It receives the prompt and
  the provider's state (the record of what it was asked so far) and returns, with the new
  state, either a raised exception or the \<open>content\<close> list of the message. A content
  block is a text block, which has the attribute \<open>text\<close>, or a block of another type,
  which has not.
\<close>

datatype content_block = TextBlock string | OtherBlock string

type_synonym 's provider = "string \<Rightarrow> 's \<Rightarrow> (pyexc + content_block list) \<times> 's"

text \<open>The prompt: the f-string of the source around the text.\<close>

definition extraction_prompt :: "string \<Rightarrow> string" where
  "extraction_prompt text =
     ''Extract all medical procedures from this text. For each procedure, identify:'' @ [CHR 0x0A]
     @ ''1. Procedure name'' @ [CHR 0x0A]
     @ ''2. Any volume/frequency mentioned'' @ [CHR 0x0A]
     @ ''3. Complexity level if indicated'' @ [CHR 0x0A, CHR 0x0A]
     @ ''Text: '' @ text @ [CHR 0x0A, CHR 0x0A]
     @ ''Respond in JSON format:'' @ [CHR 0x0A]
     @ ''[{'' @ [CHR 0x22] @ ''name'' @ [CHR 0x22] @ '': '' @ [CHR 0x22] @ ''procedure_name''
     @ [CHR 0x22] @ '', '' @ [CHR 0x22] @ ''volume'' @ [CHR 0x22] @ '': number or null, ''
     @ [CHR 0x22] @ ''complexity'' @ [CHR 0x22] @ '': '' @ [CHR 0x22]
     @ ''basic/advanced/specialized'' @ [CHR 0x22] @ '' or null}]'' @ [CHR 0x0A, CHR 0x0A]
     @ ''If no procedures found, return empty array [].''"

text \<open>\<open>message.content[0].text.strip()\<close>\<close>

definition response_text :: "content_block list \<Rightarrow> pyexc + string" where
  "response_text content =
     (case content of
        [] \<Rightarrow> Inl (Exc ''IndexError'' ''list index out of range'')
      | TextBlock t # _ \<Rightarrow> Inr (strip t)
      | OtherBlock ty # _ \<Rightarrow>
          Inl (Exc ''AttributeError'' (ty @ '' object has no attribute text'')))"

text \<open>\<open>for p in procedures_data\<close>: the items that iterating over a parsed value yields.\<close>

definition py_iter :: "pyval \<Rightarrow> pyexc + pyval list" where
  "py_iter v =
     (case v of
        PyList xs \<Rightarrow> Inr xs
      | PyDict kvs \<Rightarrow> Inr (map (\<lambda>(k, _). PyStr k) kvs)
      | PyStr s \<Rightarrow> Inr (map (\<lambda>c. PyStr [c]) s)
      | _ \<Rightarrow> Inl (Exc ''TypeError'' (py_type_name v @ '' object is not iterable'')))"

text \<open>\<open>p['name']\<close>\<close>

definition getitem :: "pyval \<Rightarrow> string \<Rightarrow> pyexc + pyval" where
  "getitem p k =
     (case p of
        PyDict kvs \<Rightarrow>
          (case map_of kvs k of
             None \<Rightarrow> Inl (Exc ''KeyError'' ([CHR 0x27] @ k @ [CHR 0x27]))
           | Some v \<Rightarrow> Inr v)
      | PyStr _ \<Rightarrow> Inl (Exc ''TypeError'' ''string indices must be integers'')
      | PyList _ \<Rightarrow> Inl (Exc ''TypeError'' ''list indices must be integers or slices'')
      | _ \<Rightarrow> Inl (Exc ''TypeError'' (py_type_name p @ '' object is not subscriptable'')))"

text \<open>\<open>p.get(k)\<close>: only a dict has the method.\<close>

definition py_get :: "pyval \<Rightarrow> string \<Rightarrow> pyexc + pyval" where
  "py_get p k =
     (case p of
        PyDict kvs \<Rightarrow> Inr (dict_get kvs k PyNone)
      | _ \<Rightarrow> Inl (Exc ''AttributeError'' (py_type_name p @ '' object has no attribute get'')))"

text \<open>One element of the list comprehension; the keyword arguments evaluate in order.\<close>

definition procedure_of :: "pyval \<Rightarrow> pyexc + ExtractedCapability" where
  "procedure_of p =
     (case getitem p ''name'' of
        Inl e \<Rightarrow> Inl e
      | Inr nm \<Rightarrow>
          (case py_get p ''volume'' of
             Inl e \<Rightarrow> Inl e
           | Inr vol \<Rightarrow>
               (case py_get p ''complexity'' of
                  Inl e \<Rightarrow> Inl e
                | Inr cx \<Rightarrow> Inr (llm_procedure nm vol cx))))"

fun comprehension :: "pyval list \<Rightarrow> pyexc + ExtractedCapability list" where
  "comprehension [] = Inr []"
| "comprehension (p # ps) =
     (case procedure_of p of
        Inl e \<Rightarrow> Inl e
      | Inr c \<Rightarrow> (case comprehension ps of Inl e \<Rightarrow> Inl e | Inr cs \<Rightarrow> Inr (c # cs)))"

text \<open>
  The inner \<open>try\<close>: \<open>json.loads\<close> (the standard library's parser, a parameter that returns
  the parsed value or raises) and the comprehension; the bare \<open>except\<close> turns every
  exception into the empty list.
\<close>

definition parse_procedures ::
  "(string \<Rightarrow> pyexc + pyval) \<Rightarrow> string \<Rightarrow> ExtractedCapability list" where
  "parse_procedures json_loads txt =
     (case json_loads txt of
        Inl _ \<Rightarrow> []
      | Inr procedures_data \<Rightarrow>
          (case py_iter procedures_data of
             Inl _ \<Rightarrow> []
           | Inr items \<Rightarrow> (case comprehension items of Inl _ \<Rightarrow> [] | Inr caps \<Rightarrow> caps)))"

text \<open>
  The outcome of a call: what the call does (\<open>Inl\<close> if an exception leaves it, \<open>Inr\<close> the
  returned list), the provider's state afterwards, and the lines printed.
\<close>

record 's llm_outcome =
  returned :: "pyexc + ExtractedCapability list"
  provider_state :: 's
  printed :: "string list"

text \<open>
  \<open>_llm_extract_procedures\<close>. The guard returns before the \<open>try\<close>; inside it the provider
  is called once, and \<open>except Exception as e\<close> prints the message and returns the empty
  list. \<open>print\<close> adds a line to the output. The text is a \<open>str\<close>, as the signature says.
\<close>

definition llm_extract_procedures ::
  "'s provider \<Rightarrow> (string \<Rightarrow> pyexc + pyval) \<Rightarrow> string \<Rightarrow> 's \<Rightarrow> 's llm_outcome" where
  "llm_extract_procedures create json_loads text s =
     (if text = [] \<or> length text < 20
      then \<lparr>returned = Inr [], provider_state = s, printed = []\<rparr>
      else
        (case create (extraction_prompt text) s of
           (Inl e, s') \<Rightarrow>
             \<lparr>returned = Inr [], provider_state = s',
              printed = [''LLM extraction error: '' @ exc_message e]\<rparr>
         | (Inr content, s') \<Rightarrow>
             (case response_text content of
                Inl e \<Rightarrow>
                  \<lparr>returned = Inr [], provider_state = s',
                   printed = [''LLM extraction error: '' @ exc_message e]\<rparr>
              | Inr txt \<Rightarrow>
                  \<lparr>returned = Inr (parse_procedures json_loads txt), provider_state = s',
                   printed = []\<rparr>)))"

text \<open>
  Providers and parsers for the examples. The provider state counts the calls. The
  unavailable provider raises on every call; the answering one returns one text block.
  \<open>no_json\<close> is a parser on an input that is not JSON.
\<close>

definition unavailable_provider :: "nat provider" where
  "unavailable_provider prompt n =
     (Inl (Exc ''APIConnectionError'' ''Connection error.''), n + 1)"

definition answering_provider :: "string \<Rightarrow> nat provider" where
  "answering_provider answer prompt n = (Inr [TextBlock answer], n + 1)"

definition no_json :: "string \<Rightarrow> pyexc + pyval" where
  "no_json txt = Inl (Exc ''JSONDecodeError'' ''Expecting value: line 1 column 1 (char 0)'')"

definition parsed_as :: "pyval \<Rightarrow> string \<Rightarrow> pyexc + pyval" where
  "parsed_as v txt = Inr v"

section \<open>The orchestrator (orchestrator.py)\<close>

text \<open>
  \<open>AgentState\<close>. The rows of the data frame (\<open>'f\<close>), the extracted facilities (\<open>'x\<close>), the
  analysis results (\<open>'a\<close>) and the matches (\<open>'m\<close>) are values of the extraction and analysis
  agents; their types are parameters. The steps of the tracker hold JSON-like values.
\<close>

record ('f, 'x, 'a, 'm) AgentState =
  query :: string
  raw_facilities_data :: "'f list"
  intent :: "string option"
  entities :: "string pydict option"
  extracted_facilities :: "'x list"
  analysis_results :: "'a option"
  matching_facilities :: "'m list"
  response :: "string option"
  visualizations :: "string pydict option"
  citation_tracker :: "pyval CitationTracker"
  processing_time_ms :: rat
  errors :: "string list"

text \<open>The initial state that \<open>process_query\<close> builds; \<open>rows\<close> is \<open>facilities_df.to_dict('records')\<close>.\<close>

definition initial_state :: "string \<Rightarrow> 'f list \<Rightarrow> ('f, 'x, 'a, 'm) AgentState" where
  "initial_state q rows =
     \<lparr>query = q, raw_facilities_data = rows, intent = None, entities = None,
      extracted_facilities = [], analysis_results = None, matching_facilities = [],
      response = None, visualizations = None, citation_tracker = init_tracker,
      processing_time_ms = 0, errors = []\<rparr>"

text \<open>
  A node of the graph takes the state and returns the state, or raises. The four nodes
  call the extraction agent, the provider and the analysis agent (\<open>analysis_agent.py\<close>,
  which is not among the sources), so the nodes are parameters: what is proved of
  \<open>process_query\<close> holds whatever the four nodes do.
\<close>

type_synonym 'st node = "'st \<Rightarrow> pyexc + 'st"

record 'st nodes =
  understand_query :: "'st node"
  extract_capabilities :: "'st node"
  analyze_data :: "'st node"
  generate_response :: "'st node"

text \<open>
  \<open>_build_graph\<close> declares a chain: the entry point \<open>understand_query\<close>, then an edge to
  \<open>extract_capabilities\<close>, to \<open>analyze_data\<close>, to \<open>generate_response\<close> and to \<open>END\<close>.
\<close>

definition build_graph :: "'st nodes \<Rightarrow> 'st node list" where
  "build_graph ns =
     [understand_query ns, extract_capabilities ns, analyze_data ns, generate_response ns]"

text \<open>
  \<open>graph.invoke\<close> is the LangGraph library's. On a chain it runs the nodes in order, each
  once (the graph is compiled with no retry policy) on the state that the node before
  returned, and an exception raised in a node leaves \<open>invoke\<close>.
\<close>

fun invoke :: "'st node list \<Rightarrow> 'st \<Rightarrow> pyexc + 'st" where
  "invoke [] st = Inr st"
| "invoke (n # ns) st = (case n st of Inl e \<Rightarrow> Inl e | Inr st' \<Rightarrow> invoke ns st')"

text \<open>The values of the dictionary that \<open>process_query\<close> returns.\<close>

datatype ('a, 'm) out_value =
    OutStr string
  | OutOptStr "string option"
  | OutEntities "string pydict option"
  | OutMatches "'m list"
  | OutAnalysis "'a option"
  | OutCitations "pyval CitationTracker"
  | OutFloat rat
  | OutErrors "string list"

text \<open>
  \<open>_format_output\<close>. \<open>to_dict()\<close> exports the tracker, which stands for the exported
  dictionary here. \<open>generate_citation_report()\<close> renders the steps through \<open>json.dumps\<close> and
  string formatting and can raise; the rendering is the parameter \<open>report\<close>.
\<close>

definition format_output ::
  "(pyval CitationTracker \<Rightarrow> pyexc + string) \<Rightarrow> ('f, 'x, 'a, 'm) AgentState
   \<Rightarrow> pyexc + ('a, 'm) out_value pydict" where
  "format_output report state =
     (case report (citation_tracker state) of
        Inl e \<Rightarrow> Inl e
      | Inr rendered \<Rightarrow>
          Inr [(''query'', OutStr (query state)),
               (''response'', OutOptStr (response state)),
               (''intent'', OutOptStr (intent state)),
               (''entities'', OutEntities (entities state)),
               (''matching_facilities'', OutMatches (matching_facilities state)),
               (''analysis_results'', OutAnalysis (analysis_results state)),
               (''citations'', OutCitations (citation_tracker state)),
               (''citation_report'', OutStr rendered),
               (''processing_time_ms'', OutFloat (processing_time_ms state)),
               (''errors'', OutErrors (errors state))])"

text \<open>
  \<open>process_query\<close>. \<open>now k\<close> is the \<open>k\<close>-th reading of \<open>time.time()\<close> during the call: reading
  0 is \<open>start_time\<close>, reading 1 is taken after \<open>invoke\<close> returned or in the handler when it
  raised, reading 2 in the handler when \<open>_format_output\<close> raised. The result is \<open>Inr\<close> of the
  returned dictionary; \<open>Inl\<close> would be an exception leaving the call.
\<close>

definition error_result :: "pyexc \<Rightarrow> string \<Rightarrow> rat \<Rightarrow> ('a, 'm) out_value pydict" where
  "error_result e q elapsed =
     [(''error'', OutStr (exc_message e)), (''query'', OutStr q),
      (''processing_time_ms'', OutFloat elapsed)]"

definition process_query ::
  "('f, 'x, 'a, 'm) AgentState nodes \<Rightarrow> (pyval CitationTracker \<Rightarrow> pyexc + string)
   \<Rightarrow> string \<Rightarrow> 'f list \<Rightarrow> (nat \<Rightarrow> rat) \<Rightarrow> pyexc + ('a, 'm) out_value pydict" where
  "process_query ns report q rows now =
     (let start_time = now 0 in
      case invoke (build_graph ns) (initial_state q rows) of
        Inl e \<Rightarrow> Inr (error_result e q ((now 1 - start_time) * 1000))
      | Inr final_state \<Rightarrow>
          (case format_output report
                  (final_state\<lparr>processing_time_ms := (now 1 - start_time) * 1000\<rparr>) of
             Inl e \<Rightarrow> Inr (error_result e q ((now 2 - start_time) * 1000))
           | Inr out \<Rightarrow> Inr out))"

subsection \<open>\<open>_understand_query_node\<close>\<close>

definition classify_intent :: "string \<Rightarrow> string" where
  "classify_intent q =
     (if list_ex (\<lambda>word. py_in word q) [''which'', ''what'', ''find'', ''show'', ''list'']
      then (if py_in ''gap'' q \<or> py_in ''missing'' q \<or> py_in ''lack'' q then ''identify_gaps''
            else if py_in ''desert'' q then ''find_medical_deserts''
            else ''find_facilities'')
      else if py_in ''analyze'' q \<or> py_in ''coverage'' q then ''analyze_coverage''
      else ''general_query'')"

definition known_regions :: "string list" where
  "known_regions = [''greater accra'', ''ashanti'', ''northern'', ''western'', ''volta'',
                    ''central'', ''eastern'', ''upper east'', ''upper west'']"

definition known_procedures :: "string list" where
  "known_procedures = [''cardiac surgery'', ''neurosurgery'', ''cesarean'', ''dialysis'',
                       ''transplant'', ''icu'', ''ct scan'', ''mri'']"

text \<open>Each \<open>for\<close> with \<open>break\<close> takes the first region and the first procedure found in the query.\<close>

definition extract_entities :: "string \<Rightarrow> string pydict" where
  "extract_entities q =
     (let ents = [];
          ents = (case find (\<lambda>reg. py_in reg q) known_regions of
                    Some reg \<Rightarrow> AList.update ''region'' (title reg) ents
                  | None \<Rightarrow> ents);
          ents = (case find (\<lambda>proc. py_in proc q) known_procedures of
                    Some proc \<Rightarrow> AList.update ''capability'' proc ents
                  | None \<Rightarrow> ents)
      in ents)"

text \<open>The node; \<open>ts\<close> is the timestamp that the new step reads from the clock.\<close>

definition understand_query_node ::
  "string \<Rightarrow> ('f, 'x, 'a, 'm) AgentState node" where
  "understand_query_node ts state =
     (let (step_id, tracker) =
            start_step ''query_understanding''
              ''Parse natural language query to identify intent and extract entities''
              [(''query'', PyStr (query state))] ts (citation_tracker state);
          q = lower (query state);
          found_intent = classify_intent q;
          ents = extract_entities q;
          tracker = end_step step_id
                      [(''intent'', PyStr found_intent),
                       (''entities'', PyDict (map (\<lambda>(k, v). (k, PyStr v)) ents))]
                      None tracker
      in Inr (state\<lparr>intent := Some found_intent, entities := Some ents,
                     citation_tracker := tracker\<rparr>))"

text \<open>
  A pipeline for the examples: the first node is the one above, the second raises the
  \<open>KeyError\<close> of a row without \<open>facility_id\<close>, the last two return the state unchanged.
\<close>

definition failing_pipeline :: "(unit, unit, unit, unit) AgentState nodes" where
  "failing_pipeline =
     \<lparr>understand_query = understand_query_node ''2024-01-01T00:00:00'',
      extract_capabilities = (\<lambda>state. Inl (Exc ''KeyError'' ([CHR 0x27] @ ''facility_id'' @ [CHR 0x27]))),
      analyze_data = Inr,
      generate_response = Inr\<rparr>"

definition example_clock :: "nat \<Rightarrow> rat" where
  "example_clock k = (if k = 0 then 100 else 100 + 1 / 4)"

definition plain_report :: "pyval CitationTracker \<Rightarrow> pyexc + string" where
  "plain_report t = Inr ''AGENT EXECUTION TRACE WITH CITATIONS''"

section \<open>Properties of the citation tracker\<close>

lemma end_step_counter [simp]:
  "current_step_number (end_step n out dur t) = current_step_number t"
  by (simp add: end_step_def split: option.splits)

lemma add_citation_to_step_counter [simp]:
  "current_step_number (add_citation_to_step n c t) = current_step_number t"
  by (simp add: add_citation_to_step_def split: option.splits)

lemma get_step_index_bound:
  "get_step_index ss n = Some i \<Longrightarrow> i < length ss \<and> step_number (ss ! i) = n"
  by (induction ss arbitrary: i) (auto split: if_splits)

lemma get_step_index_None:
  "get_step_index ss n = None \<longleftrightarrow> n \<notin> step_number ` set ss"
  by (induction ss) auto

lemma end_step_numbers [simp]:
  "map step_number (steps (end_step n out dur t)) = map step_number (steps t)"
  by (auto simp: end_step_def map_update list_update_same_conv
           split: option.splits dest: get_step_index_bound)

lemma add_citation_to_step_numbers [simp]:
  "map step_number (steps (add_citation_to_step n c t)) = map step_number (steps t)"
  by (auto simp: add_citation_to_step_def add_citation_def map_update list_update_same_conv
           split: option.splits dest: get_step_index_bound)

lemma start_step_fst [simp]:
  "fst (start_step nm descr inp now t) = current_step_number t + 1"
  by (simp add: start_step_def Let_def)

lemma start_step_counter [simp]:
  "current_step_number (snd (start_step nm descr inp now t)) = current_step_number t + 1"
  by (simp add: start_step_def Let_def)

lemma start_step_numbers [simp]:
  "map step_number (steps (snd (start_step nm descr inp now t)))
     = map step_number (steps t) @ [current_step_number t + 1]"
  by (simp add: start_step_def Let_def)

lemma run_ops_start_fst:
  "fst (run_ops (StartStep nm descr inp now # ops) t)
     = fst (start_step nm descr inp now t)
       # fst (run_ops ops (snd (start_step nm descr inp now t)))"
  by (simp add: case_prod_beta)

lemma run_ops_start_snd:
  "snd (run_ops (StartStep nm descr inp now # ops) t)
     = snd (run_ops ops (snd (start_step nm descr inp now t)))"
  by (simp add: case_prod_beta)

lemma run_ops_returns:
  "fst (run_ops ops t) =
     [current_step_number t + 1 .. current_step_number t + int (length (filter is_start ops))]"
proof (induction ops arbitrary: t)
  case Nil
  show ?case by simp
next
  case (Cons op ops)
  show ?case
  proof (cases op)
    case (StartStep nm descr inp now)
    let ?c = "current_step_number t"
    let ?k = "int (length (filter is_start ops))"
    have "fst (run_ops (op # ops) t) = (?c + 1) # [?c + 1 + 1 .. ?c + 1 + ?k]"
      using Cons.IH [of "snd (start_step nm descr inp now t)"] StartStep
      by (simp only: run_ops_start_fst start_step_fst start_step_counter)
    also have "\<dots> = [?c + 1 .. ?c + (1 + ?k)]"
      by (simp add: upto_rec1 [of "?c + 1"] add.assoc)
    finally show ?thesis using StartStep by simp
  next
    case (EndStep n out dur)
    then show ?thesis using Cons.IH [of "end_step n out dur t"] by simp
  next
    case (AddCitation n c)
    then show ?thesis using Cons.IH [of "add_citation_to_step n c t"] by simp
  qed
qed

lemma run_ops_step_numbers:
  "map step_number (steps (snd (run_ops ops t))) =
     map step_number (steps t) @ fst (run_ops ops t)"
proof (induction ops arbitrary: t)
  case Nil
  show ?case by simp
next
  case (Cons op ops)
  show ?case
  proof (cases op)
    case (StartStep nm descr inp now)
    then show ?thesis
      using Cons.IH [of "snd (start_step nm descr inp now t)"]
      by (simp only: run_ops_start_fst run_ops_start_snd start_step_fst start_step_numbers
                     append_assoc append_Cons append_Nil)
  next
    case (EndStep n out dur)
    then show ?thesis using Cons.IH [of "end_step n out dur t"] by simp
  next
    case (AddCitation n c)
    then show ?thesis using Cons.IH [of "add_citation_to_step n c t"] by simp
  qed
qed

text \<open>
  C6. On one tracker instance, whatever other calls are interleaved, the numbers returned by
  the \<open>start_step\<close> calls are exactly 1, 2, 3, ..., k in call order (k the number of
  \<open>start_step\<close> calls): no gap, no repeat, each strictly greater than all earlier ones.
\<close>

theorem start_step_numbers_sequential:
  "fst (run_ops ops init_tracker) = [1 .. int (length (filter is_start ops))]
   \<and> sorted_wrt (<) (fst (run_ops ops init_tracker))
   \<and> map step_number (steps (snd (run_ops ops init_tracker))) = fst (run_ops ops init_tracker)"
proof -
  have a: "fst (run_ops ops (init_tracker :: 'a CitationTracker))
           = [1 .. int (length (filter is_start ops))]"
    using run_ops_returns [of ops "init_tracker :: 'a CitationTracker"]
    by (simp add: init_tracker_def)
  have b: "sorted_wrt (<) [1 .. int (length (filter is_start ops))]"
    by (simp add: sorted_wrt_upto)
  have c: "map step_number (steps (snd (run_ops ops (init_tracker :: 'a CitationTracker))))
           = fst (run_ops ops init_tracker)"
    using run_ops_step_numbers [of ops "init_tracker :: 'a CitationTracker"]
    by (simp add: init_tracker_def)
  show ?thesis using a b c by simp
qed

lemma get_step_index_cong:
  "map step_number ss = map step_number ss' \<Longrightarrow> get_step_index ss n = get_step_index ss' n"
proof (induction ss arbitrary: ss')
  case Nil
  then show ?case by simp
next
  case (Cons s ss)
  then obtain s' rest where "ss' = s' # rest" by (cases ss') auto
  with Cons show ?case by auto
qed

lemma end_step_index [simp]:
  "get_step_index (steps (end_step n out dur t)) m = get_step_index (steps t) m"
  by (rule get_step_index_cong) simp

lemma unknown_step_noop_general:
  "n \<notin> step_number ` set (steps t) \<Longrightarrow>
     end_step n out dur t = t \<and> add_citation_to_step n c t = t \<and> get_step t n = None"
  by (simp add: end_step_def add_citation_to_step_def get_step_def get_step_index_None [symmetric])

text \<open>
  C10. \<open>end_step\<close> and \<open>add_citation_to_step\<close> with a step number that no
  \<open>start_step\<close> call of the run has returned are silent no-ops: \<open>_get_step\<close> finds nothing,
  nothing is raised, no step is created, and the whole tracker (steps, citations, counter)
  is unchanged.
\<close>

theorem unknown_step_is_noop:
  "n \<notin> set (fst (run_ops ops init_tracker)) \<Longrightarrow>
     end_step n out dur (snd (run_ops ops init_tracker)) = snd (run_ops ops init_tracker)
   \<and> add_citation_to_step n c (snd (run_ops ops init_tracker)) = snd (run_ops ops init_tracker)
   \<and> get_step (snd (run_ops ops init_tracker)) n = None"
proof -
  assume a: "n \<notin> set (fst (run_ops ops (init_tracker :: 'a CitationTracker)))"
  let ?t = "snd (run_ops ops (init_tracker :: 'a CitationTracker))"
  have "map step_number (steps ?t) = fst (run_ops ops (init_tracker :: 'a CitationTracker))"
    using run_ops_step_numbers [of ops "init_tracker :: 'a CitationTracker"]
    by (simp add: init_tracker_def)
  then have "set (fst (run_ops ops (init_tracker :: 'a CitationTracker))) = step_number ` set (steps ?t)"
    by (metis set_map)
  with a have "n \<notin> step_number ` set (steps ?t)" by simp
  then show ?thesis by (rule unknown_step_noop_general)
qed

theorem unknown_step_is_noop_witness:
  "(7::int) \<notin> set (fst (run_ops [StartStep ''a'' ''b'' [] ''t0'', EndStep 1 [(''k'', ''v'')] None]
                        (init_tracker :: string CitationTracker)))
   \<and> end_step 7 [(''k'', ''w'')] (Some 3)
        (snd (run_ops [StartStep ''a'' ''b'' [] ''t0'', EndStep 1 [(''k'', ''v'')] None] init_tracker))
      = snd (run_ops [StartStep ''a'' ''b'' [] ''t0'', EndStep 1 [(''k'', ''v'')] None]
               (init_tracker :: string CitationTracker))"
proof -
  have h: "(7::int) \<notin> set (fst (run_ops [StartStep ''a'' ''b'' [] ''t0'', EndStep 1 [(''k'', ''v'')] None]
                        (init_tracker :: string CitationTracker)))"
    by (simp add: start_step_def init_tracker_def Let_def)
  show ?thesis using h unknown_step_is_noop [OF h] by simp
qed

text \<open>
  C7 as stated fails: a second \<open>end_step\<close> on a completed step replaces the output and the
  duration written by the first call.
\<close>

theorem end_step_twice_counterexample:
  "map output_data (steps (end_step 1 [(''n'', ''second'')] None
                            (end_step 1 [(''n'', ''first'')] (Some 5) example_ledger)))
     \<noteq> map output_data (steps (end_step 1 [(''n'', ''first'')] (Some 5) example_ledger))
   \<and> map duration_ms (steps (end_step 1 [(''n'', ''second'')] None
                            (end_step 1 [(''n'', ''first'')] (Some 5) example_ledger)))
     \<noteq> map duration_ms (steps (end_step 1 [(''n'', ''first'')] (Some 5) example_ledger))"
  by (simp add: example_ledger_def start_step_def init_tracker_def end_step_def Let_def)

text \<open>
  C7, amended. \<open>end_step\<close> has no guard against a second call: for a step number that
  is in the ledger the last call wins. After two calls the step holds the second call's
  \<open>output_data\<close> and \<open>duration_ms\<close> (\<open>None\<close> when the argument is omitted); its other
  fields, the other steps and the counter are as before the first call.
\<close>

theorem end_step_last_write_wins:
  "get_step_index (steps t) n = Some i \<Longrightarrow>
     end_step n out2 dur2 (end_step n out1 dur1 t)
       = t\<lparr>steps := (steps t)[i := (steps t ! i)\<lparr>output_data := out2, duration_ms := dur2\<rparr>]\<rparr>
     \<and> get_step (end_step n out2 dur2 (end_step n out1 dur1 t)) n
       = Some ((steps t ! i)\<lparr>output_data := out2, duration_ms := dur2\<rparr>)"
proof -
  assume a: "get_step_index (steps t) n = Some i"
  then have b: "i < length (steps t)" by (simp add: get_step_index_bound)
  have c: "get_step_index (steps (end_step n out1 dur1 t)) n = Some i"
    using a by simp
  have d: "end_step n out1 dur1 t
           = t\<lparr>steps := (steps t)[i := (steps t ! i)\<lparr>output_data := out1, duration_ms := dur1\<rparr>]\<rparr>"
    using a by (simp add: end_step_def)
  have e: "end_step n out2 dur2 (end_step n out1 dur1 t)
       = t\<lparr>steps := (steps t)[i := (steps t ! i)\<lparr>output_data := out2, duration_ms := dur2\<rparr>]\<rparr>"
    using c b unfolding end_step_def [of n out2 dur2] by (simp add: d)
  have f: "get_step_index (steps (end_step n out2 dur2 (end_step n out1 dur1 t))) n = Some i"
    using a by simp
  show ?thesis using e f b unfolding get_step_def by simp
qed

theorem end_step_last_write_wins_witness:
  "get_step_index (steps example_ledger) 1 = Some 0
   \<and> get_step (end_step 1 [(''n'', ''second'')] None
                 (end_step 1 [(''n'', ''first'')] (Some 5) example_ledger)) 1
     = Some ((steps example_ledger ! 0)\<lparr>output_data := [(''n'', ''second'')], duration_ms := None\<rparr>)"
proof -
  have h: "get_step_index (steps example_ledger) 1 = Some 0"
    by (simp add: example_ledger_def start_step_def init_tracker_def Let_def)
  show ?thesis using h end_step_last_write_wins [OF h] by blast
qed

section \<open>Properties of the scoring engine\<close>

lemma lower_critical_names:
  "map lower [''CT scanner'', ''MRI'', ''ICU'', ''operating theater''] = map lower critical_missing"
  by code_simp

lemma type_weight_eq: "dict_get type_weights ft (3 / 10) = spec_type_weight ft"
  by (simp add: dict_get_def type_weights_def spec_type_weight_def)

lemma spec_type_weight_pos: "0 < spec_type_weight ft"
  by (simp add: spec_type_weight_def)

lemma capability_score_compute:
  "capability_score (compute_scores p)
     = spec_capability_score (length (specialties p)) (length (equipment p))
         (length (procedures p)) (facility_type p)"
  by (simp add: compute_scores_def Let_def type_weight_eq spec_capability_score_def algebra_simps)

lemma fold_penalty:
  "fold (\<lambda>c d. if P c then d + 10 else d) xs (d::int) = d + 10 * int (length (filter P xs))"
  by (induction xs arbitrary: d) auto

lemma length_filter_lower:
  "length (filter (\<lambda>c. Q (lower c)) xs) = length (filter Q (map lower xs))"
  by (induction xs) auto

lemma spec_missing_eq:
  "spec_missing_critical_penalty equip
     = 10 * int (length (filter (\<lambda>c. \<not> list_ex (\<lambda>eq. py_in (lower c) (lower eq)) equip)
                                critical_missing))"
proof -
  let ?Q = "\<lambda>l. \<not> list_ex (\<lambda>eq. py_in l (lower eq)) equip"
  have "length (filter (\<lambda>c. ?Q (lower c)) [''CT scanner'', ''MRI'', ''ICU'', ''operating theater''])
        = length (filter ?Q (map lower [''CT scanner'', ''MRI'', ''ICU'', ''operating theater'']))"
    by (rule length_filter_lower)
  also have "\<dots> = length (filter ?Q (map lower critical_missing))"
    by (simp only: lower_critical_names)
  also have "\<dots> = length (filter (\<lambda>c. ?Q (lower c)) critical_missing)"
    by (rule length_filter_lower [symmetric])
  finally show ?thesis
    by (simp only: spec_missing_critical_penalty_def spec_present_def)
qed

lemma desert_compute:
  "desert_risk_score (compute_scores p)
     = of_int (min 100 (spec_base (capability_score (compute_scores p))
                        + spec_gap_penalty (length (gaps p))
                        + spec_missing_critical_penalty (equipment p)))"
proof -
  let ?cs = "capability_score (compute_scores p)"
  have cs: "?cs = min 100 (of_nat (length (specialties p) * 5 + length (equipment p) * 3
                                   + length (procedures p) * 2)
                           * dict_get type_weights (facility_type p) (3 / 10))"
    by (simp add: compute_scores_def Let_def)
  have "desert_risk_score (compute_scores p)
        = of_int (min 100 ((if ?cs < 30 then 30 else if ?cs < 50 then 15 else 0)
                           + min 30 (int (length (gaps p)) * 5)
                           + 10 * int (length (filter (\<lambda>c. \<not> list_ex (\<lambda>eq. py_in (lower c) (lower eq))
                                                              (equipment p)) critical_missing))))"
    unfolding cs by (simp add: compute_scores_def Let_def fold_penalty)
  then show ?thesis
    by (simp add: spec_base_def spec_gap_penalty_def spec_missing_eq mult.commute)
qed

lemma missing_ct_icu: "spec_missing_critical_penalty [''CT Scanner'', ''ICU''] = 20"
  by code_simp

lemma example_capability_score: "capability_score (compute_scores example_profile) = 32 / 5"
  by (simp add: capability_score_compute spec_capability_score_def spec_type_weight_def
                example_profile_def)

text \<open>
  C2. For every profile, \<open>_compute_scores\<close> sets \<open>desert_risk_score\<close> to
  min(100, base + gap\_penalty + missing\_critical\_penalty): base is 30 below a capability
  score of 30, 15 below 50, else 0; gap\_penalty is min(30, 5 per gap);
  missing\_critical\_penalty is 10 for each of CT scanner, MRI, ICU, operating theater that
  is no case-insensitive substring of any equipment item. In particular a District
  Hospital with capability score 6.4, two gaps and equipment CT Scanner and ICU gets 60.
\<close>

theorem desert_risk_score_formula:
  "desert_risk_score (compute_scores p)
     = of_int (min 100 (spec_base (capability_score (compute_scores p))
                        + spec_gap_penalty (length (gaps p))
                        + spec_missing_critical_penalty (equipment p)))
   \<and> (facility_type p = ''District Hospital''
        \<and> capability_score (compute_scores p) = 32 / 5
        \<and> length (gaps p) = 2
        \<and> equipment p = [''CT Scanner'', ''ICU'']
      \<longrightarrow> desert_risk_score (compute_scores p) = 60)"
proof (intro conjI impI)
  show "desert_risk_score (compute_scores p)
     = of_int (min 100 (spec_base (capability_score (compute_scores p))
                        + spec_gap_penalty (length (gaps p))
                        + spec_missing_critical_penalty (equipment p)))"
    by (rule desert_compute)
next
  assume a: "facility_type p = ''District Hospital''
        \<and> capability_score (compute_scores p) = 32 / 5
        \<and> length (gaps p) = 2
        \<and> equipment p = [''CT Scanner'', ''ICU'']"
  from a have cs: "capability_score (compute_scores p) = 32 / 5"
    and g: "length (gaps p) = 2" and e: "equipment p = [''CT Scanner'', ''ICU'']"
    by blast+
  have "desert_risk_score (compute_scores p)
        = of_int (min 100 (spec_base (32 / 5) + spec_gap_penalty 2
                           + spec_missing_critical_penalty [''CT Scanner'', ''ICU'']))"
    by (simp only: desert_compute [of p] cs g e)
  then show "desert_risk_score (compute_scores p) = 60"
    by (simp add: missing_ct_icu spec_base_def spec_gap_penalty_def)
qed

theorem desert_risk_score_formula_witness:
  "facility_type example_profile = ''District Hospital''
   \<and> capability_score (compute_scores example_profile) = 32 / 5
   \<and> length (gaps example_profile) = 2
   \<and> equipment example_profile = [''CT Scanner'', ''ICU'']
   \<and> desert_risk_score (compute_scores example_profile) = 60"
proof -
  have h: "facility_type example_profile = ''District Hospital''
        \<and> capability_score (compute_scores example_profile) = 32 / 5
        \<and> length (gaps example_profile) = 2
        \<and> equipment example_profile = [''CT Scanner'', ''ICU'']"
    using example_capability_score by (simp add: example_profile_def)
  show ?thesis using h desert_risk_score_formula [of example_profile] by blast
qed

text \<open>
  C3 as stated fails on \<open>ExtractionAgent._calculate_capability_score\<close>: for a facility
  with two specialties, two operational equipment items and no procedures, whatever its
  type, the agent's score is 2 * 4 + 2 * 3 = 14, where the claimed formula gives 6.4 for a
  District Hospital.
\<close>

theorem agent_capability_score_counterexample:
  "calculate_capability_score []
     [rule_equipment ''Ct Scanner'', rule_equipment ''ICU'']
     [rule_specialty ''Cardiology'' ''Cardiology, General Surgery'',
      rule_specialty ''Surgery'' ''Cardiology, General Surgery''] = 14
   \<and> spec_capability_score 2 2 0 ''District Hospital'' = 32 / 5"
  by (simp add: calculate_capability_score_def rule_equipment_def rule_specialty_def
                spec_capability_score_def spec_type_weight_def Let_def)

text \<open>
  C3, amended. For every profile of the document parser, \<open>_compute_scores\<close> sets
  \<open>capability_score\<close> to min(100, (5 per specialty + 3 per equipment item + 2 per
  procedure) times the type weight), the weight being 1.0 for Teaching, 0.7 for Regional,
  0.5 for Mission, 0.4 for District Hospital and 0.3 otherwise; a District Hospital with
  2 specialties, 2 equipment items and no procedures scores 6.4. The extraction agent's
  \<open>capability_score\<close> is a different quantity: min(100, 3 per operational equipment item
  + 5 per procedure + 4 per specialty), with no type weight.
\<close>

theorem capability_score_formula:
  "capability_score (compute_scores p)
     = spec_capability_score (length (specialties p)) (length (equipment p))
         (length (procedures p)) (facility_type p)
   \<and> (facility_type p = ''District Hospital'' \<and> length (specialties p) = 2
        \<and> length (equipment p) = 2 \<and> procedures p = []
      \<longrightarrow> capability_score (compute_scores p) = 32 / 5)
   \<and> calculate_capability_score procs equip specs
     = min 100 (3 * of_nat (length (filter (\<lambda>e. ec_status e = Some ''operational'') equip))
                + 5 * of_nat (length procs) + 4 * of_nat (length specs))"
proof (intro conjI impI)
  show "capability_score (compute_scores p)
     = spec_capability_score (length (specialties p)) (length (equipment p))
         (length (procedures p)) (facility_type p)"
    by (rule capability_score_compute)
next
  assume "facility_type p = ''District Hospital'' \<and> length (specialties p) = 2
        \<and> length (equipment p) = 2 \<and> procedures p = []"
  then show "capability_score (compute_scores p) = 32 / 5"
    by (simp add: capability_score_compute spec_capability_score_def spec_type_weight_def)
next
  show "calculate_capability_score procs equip specs
     = min 100 (3 * of_nat (length (filter (\<lambda>e. ec_status e = Some ''operational'') equip))
                + 5 * of_nat (length procs) + 4 * of_nat (length specs))"
    by (simp add: calculate_capability_score_def Let_def mult.commute)
qed

theorem capability_score_formula_witness:
  "facility_type example_profile = ''District Hospital''
   \<and> length (specialties example_profile) = 2
   \<and> length (equipment example_profile) = 2
   \<and> procedures example_profile = []
   \<and> capability_score (compute_scores example_profile) = 32 / 5"
proof -
  have h: "facility_type example_profile = ''District Hospital''
        \<and> length (specialties example_profile) = 2
        \<and> length (equipment example_profile) = 2 \<and> procedures example_profile = []"
    by (simp add: example_profile_def)
  show ?thesis using h capability_score_formula [of example_profile] by blast
qed

lemma spec_capability_score_bounds:
  "0 \<le> spec_capability_score a b c ft \<and> spec_capability_score a b c ft \<le> 100"
proof -
  have "0 \<le> (5 * of_nat a + 3 * of_nat b + 2 * of_nat c) * spec_type_weight ft"
    using spec_type_weight_pos [of ft] by (intro mult_nonneg_nonneg) simp_all
  then show ?thesis by (simp add: spec_capability_score_def)
qed

lemma spec_penalties_nonneg:
  "0 \<le> spec_base cs" "0 \<le> spec_gap_penalty n" "0 \<le> spec_missing_critical_penalty eq"
  by (simp_all add: spec_base_def spec_gap_penalty_def spec_missing_critical_penalty_def)

text \<open>
  C5. Whatever profile \<open>_compute_scores\<close> is run on (it is the last step of
  \<open>extract_capabilities\<close> and overwrites both scores), the resulting profile has
  0 \<le> capability\_score \<le> 100 and 0 \<le> desert\_risk\_score \<le> 100; the extraction agent's
  capability score lies in the same range.
\<close>

theorem scores_bounded:
  "0 \<le> capability_score (compute_scores p) \<and> capability_score (compute_scores p) \<le> 100
   \<and> 0 \<le> desert_risk_score (compute_scores p) \<and> desert_risk_score (compute_scores p) \<le> 100
   \<and> 0 \<le> calculate_capability_score procs equip specs
   \<and> calculate_capability_score procs equip specs \<le> 100"
proof -
  have a: "0 \<le> capability_score (compute_scores p) \<and> capability_score (compute_scores p) \<le> 100"
    by (simp only: capability_score_compute spec_capability_score_bounds)
  let ?d = "spec_base (capability_score (compute_scores p)) + spec_gap_penalty (length (gaps p))
            + spec_missing_critical_penalty (equipment p)"
  have "0 \<le> ?d"
    using spec_penalties_nonneg(1) [of "capability_score (compute_scores p)"]
      spec_penalties_nonneg(2) [of "length (gaps p)"]
      spec_penalties_nonneg(3) [of "equipment p"] by linarith
  then have "0 \<le> min 100 ?d \<and> min 100 ?d \<le> 100" by simp
  then have "(0::rat) \<le> of_int (min 100 ?d) \<and> (of_int (min 100 ?d) :: rat) \<le> 100"
    by (metis of_int_0_le_iff of_int_le_iff of_int_numeral)
  then have b: "0 \<le> desert_risk_score (compute_scores p)
               \<and> desert_risk_score (compute_scores p) \<le> 100"
    by (simp only: desert_compute)
  have c: "0 \<le> calculate_capability_score procs equip specs
           \<and> calculate_capability_score procs equip specs \<le> 100"
    by (simp add: calculate_capability_score_def Let_def)
  show ?thesis using a b c by blast
qed

section \<open>Properties of the regional classification\<close>

lemma map_of_map_entry:
  "map_of (AList.map_entry k f al) k' =
     (if k' = k then map_option f (map_of al k) else map_of al k')"
  by (induction al) auto

lemma map_of_add_to_region:
  "map_of (add_to_region p rd) r =
     (if region p = r then Some ((case map_of rd r of None \<Rightarrow> [] | Some fs \<Rightarrow> fs) @ [p])
      else map_of rd r)"
proof (cases "map_of rd (region p)")
  case None
  then show ?thesis
    by (auto simp: add_to_region_def Let_def map_of_map_entry map_add_def split: option.splits)
next
  case (Some fs)
  then show ?thesis
    by (auto simp: add_to_region_def Let_def map_of_map_entry)
qed

lemma keys_map_entry [simp]: "map fst (AList.map_entry k f al) = map fst al"
  by (induction al) auto

lemma distinct_add_to_region:
  "distinct (map fst rd) \<Longrightarrow> distinct (map fst (add_to_region p rd))"
  by (auto simp: add_to_region_def Let_def map_of_eq_None_iff)

lemma map_of_fold_add:
  "map_of (fold add_to_region ps rd) r =
     (case map_of rd r of
        None \<Rightarrow> (if filter (\<lambda>p. region p = r) ps = [] then None
                  else Some (filter (\<lambda>p. region p = r) ps))
      | Some fs \<Rightarrow> Some (fs @ filter (\<lambda>p. region p = r) ps))"
proof (induction ps arbitrary: rd)
  case Nil
  show ?case by (simp split: option.splits)
next
  case (Cons p ps)
  show ?case
  proof (cases "region p = r")
    case True
    then show ?thesis
      by (cases "map_of rd r") (simp_all add: Cons.IH map_of_add_to_region)
  next
    case False
    then show ?thesis
      by (cases "map_of rd r") (simp_all add: Cons.IH map_of_add_to_region)
  qed
qed

lemma distinct_fold_add:
  "distinct (map fst rd) \<Longrightarrow> distinct (map fst (fold add_to_region ps rd))"
  by (induction ps arbitrary: rd) (simp_all add: distinct_add_to_region)

lemma group_by_region_lookup:
  "map_of (group_by_region ps) r =
     (if region_facilities ps r = [] then None else Some (region_facilities ps r))"
  by (simp add: group_by_region_def map_of_fold_add region_facilities_def)

lemma group_by_region_distinct: "distinct (map fst (group_by_region ps))"
  by (simp add: group_by_region_def distinct_fold_add)

lemma group_by_region_member:
  "(r, fs) \<in> set (group_by_region ps) \<longleftrightarrow> (fs \<noteq> [] \<and> fs = region_facilities ps r)"
proof -
  have "(r, fs) \<in> set (group_by_region ps) \<longleftrightarrow> map_of (group_by_region ps) r = Some fs"
    using group_by_region_distinct [of ps] by simp
  then show ?thesis
    by (auto simp: group_by_region_lookup)
qed


lemma region_entry_region [simp]: "de_region (region_entry r fs) = r"
  by (simp add: region_entry_def)

lemma analyze_regions_nonempty:
  "\<forall>(r, fs) \<in> set g. fs \<noteq> [] \<Longrightarrow>
   analyze_regions g t acc
     = Inr (acc @ map (\<lambda>(r, fs). region_entry r fs)
                      (filter (\<lambda>(r, fs). t \<le> de_desert_risk_score (region_entry r fs)) g))"
proof (induction g arbitrary: acc)
  case Nil
  show ?case by simp
next
  case (Cons a g)
  obtain r fs where a: "a = (r, fs)" by (cases a)
  from Cons.prems a have ne: "fs \<noteq> []" and rest: "\<forall>(r, fs) \<in> set g. fs \<noteq> []" by auto
  show ?case
    using ne Cons.IH [OF rest]
    by (simp add: a truediv_def region_entry_def Let_def)
qed

lemma set_sorted_reverse [simp]: "set (sorted_reverse k xs) = set xs"
  by (simp add: sorted_reverse_def)

lemma group_nonempty: "\<forall>(r, fs) \<in> set (group_by_region ps). fs \<noteq> []"
  by (auto simp: group_by_region_member)

lemma identify_medical_deserts_eq:
  "identify_medical_deserts ps t
     = Inr (sorted_reverse de_desert_risk_score
             (map (\<lambda>(r, fs). region_entry r fs)
                (filter (\<lambda>(r, fs). t \<le> de_desert_risk_score (region_entry r fs))
                   (group_by_region ps))))"
  by (simp add: identify_medical_deserts_def analyze_regions_nonempty [OF group_nonempty])

lemma region_facilities_nonempty:
  "region_facilities ps r \<noteq> [] \<longleftrightarrow> r \<in> region ` set ps"
  by (auto simp: region_facilities_def filter_empty_conv)

lemma desert_entries_set:
  "set (map (\<lambda>(r, fs). region_entry r fs)
          (filter (\<lambda>(r, fs). t \<le> de_desert_risk_score (region_entry r fs)) (group_by_region ps)))
   = {region_entry r (region_facilities ps r) | r.
        r \<in> region ` set ps \<and> t \<le> spec_average_risk ps r}"
  (is "?L = ?R")
proof
  show "?L \<subseteq> ?R"
  proof
    fix d assume "d \<in> ?L"
    then obtain r fs where m: "(r, fs) \<in> set (group_by_region ps)"
      and th: "t \<le> de_desert_risk_score (region_entry r fs)" and d: "d = region_entry r fs"
      by auto
    from m have fs: "fs = region_facilities ps r" and ne: "fs \<noteq> []"
      unfolding group_by_region_member by blast+
    have "r \<in> region ` set ps" using ne fs region_facilities_nonempty by blast
    moreover have "t \<le> spec_average_risk ps r"
      using th fs by (simp add: spec_average_risk_def region_entry_def)
    ultimately show "d \<in> ?R" using d fs by blast
  qed
next
  show "?R \<subseteq> ?L"
  proof
    fix d assume "d \<in> ?R"
    then obtain r where r: "r \<in> region ` set ps" and th: "t \<le> spec_average_risk ps r"
      and d: "d = region_entry r (region_facilities ps r)" by blast
    have m: "(r, region_facilities ps r) \<in> set (group_by_region ps)"
      using r by (simp add: group_by_region_member region_facilities_nonempty)
    have "t \<le> de_desert_risk_score (region_entry r (region_facilities ps r))"
      using th by (simp add: spec_average_risk_def region_entry_def)
    with m d show "d \<in> ?L" by force
  qed
qed

lemma north_low_avg: "spec_average_risk north_low ''North'' = 175 / 3"
  by (simp add: spec_average_risk_def region_facilities_def north_low_def scored_profile_def)

lemma north_high_avg: "spec_average_risk north_high ''North'' = 60"
  by (simp add: spec_average_risk_def region_facilities_def north_high_def scored_profile_def)

text \<open>
  C4. \<open>identify_medical_deserts\<close> always returns (the division by the number of a
  region's facilities never divides by zero), and for every list of profiles and every
  threshold a region is in the output if and only if it has a facility in the list and the
  average \<open>desert_risk_score\<close> of its facilities is at least the threshold (60 by default).
  Every entry has \<open>facility_count\<close> at least 1. Three facilities with scores 80, 55, 40
  (average 58.3) are not classified at the default threshold; with 80, 60, 40 (average 60)
  the region is.
\<close>

theorem medical_desert_iff_average_meets_threshold:
  "\<exists>ds. identify_medical_deserts ps t = Inr ds
     \<and> (r \<in> de_region ` set ds \<longleftrightarrow> r \<in> region ` set ps \<and> t \<le> spec_average_risk ps r)
     \<and> (\<forall>d \<in> set ds. 1 \<le> facility_count d \<and> t \<le> de_desert_risk_score d)"
proof -
  let ?ds = "sorted_reverse de_desert_risk_score
             (map (\<lambda>(r, fs). region_entry r fs)
                (filter (\<lambda>(r, fs). t \<le> de_desert_risk_score (region_entry r fs))
                   (group_by_region ps)))"
  have s: "set ?ds = {region_entry r (region_facilities ps r) | r.
        r \<in> region ` set ps \<and> t \<le> spec_average_risk ps r}"
    by (simp only: set_sorted_reverse desert_entries_set)
  have a: "r \<in> de_region ` set ?ds \<longleftrightarrow> r \<in> region ` set ps \<and> t \<le> spec_average_risk ps r"
  proof
    assume "r \<in> de_region ` set ?ds"
    then obtain d where "d \<in> set ?ds" and dr: "de_region d = r" by blast
    then obtain q where q: "q \<in> region ` set ps \<and> t \<le> spec_average_risk ps q"
      and d: "d = region_entry q (region_facilities ps q)" unfolding s by blast
    from d dr have "q = r" by simp
    with q show "r \<in> region ` set ps \<and> t \<le> spec_average_risk ps r" by simp
  next
    assume "r \<in> region ` set ps \<and> t \<le> spec_average_risk ps r"
    then have "region_entry r (region_facilities ps r) \<in> set ?ds" unfolding s by blast
    then have "de_region (region_entry r (region_facilities ps r)) \<in> de_region ` set ?ds"
      by (rule imageI)
    then show "r \<in> de_region ` set ?ds" by simp
  qed
  have b: "\<forall>d \<in> set ?ds. 1 \<le> facility_count d \<and> t \<le> de_desert_risk_score d"
  proof
    fix d assume "d \<in> set ?ds"
    then obtain q where q: "q \<in> region ` set ps" and th: "t \<le> spec_average_risk ps q"
      and d: "d = region_entry q (region_facilities ps q)" unfolding s by blast
    have "region_facilities ps q \<noteq> []" using q by (simp add: region_facilities_nonempty)
    then have "1 \<le> length (region_facilities ps q)" by (cases "region_facilities ps q") auto
    then show "1 \<le> facility_count d \<and> t \<le> de_desert_risk_score d"
      using d th by (simp add: region_entry_def spec_average_risk_def)
  qed
  show ?thesis using identify_medical_deserts_eq [of ps t] a b by blast
qed

theorem medical_desert_iff_average_meets_threshold_witness:
  "spec_average_risk north_low ''North'' = 175 / 3
   \<and> (\<exists>ds. identify_medical_deserts north_low default_threshold = Inr ds
            \<and> ''North'' \<notin> de_region ` set ds)
   \<and> spec_average_risk north_high ''North'' = 60
   \<and> (\<exists>ds. identify_medical_deserts north_high default_threshold = Inr ds
            \<and> ''North'' \<in> de_region ` set ds \<and> (\<forall>d \<in> set ds. 1 \<le> facility_count d))"
proof -
  have lo: "\<not> (''North'' \<in> region ` set north_low
                \<and> default_threshold \<le> spec_average_risk north_low ''North'')"
    by (simp add: north_low_avg default_threshold_def)
  have hi: "''North'' \<in> region ` set north_high
                \<and> default_threshold \<le> spec_average_risk north_high ''North''"
    by (simp add: north_high_avg default_threshold_def) (simp add: north_high_def scored_profile_def)
  show ?thesis
    using lo hi
      medical_desert_iff_average_meets_threshold [of north_low default_threshold "''North''"]
      medical_desert_iff_average_meets_threshold [of north_high default_threshold "''North''"]
      north_low_avg north_high_avg
    by blast
qed

section \<open>Properties of the deduplication\<close>

lemma dedup_loop_distinct:
  "dedup_loop caps seen = Inr out \<Longrightarrow> distinct (map fst seen) \<Longrightarrow> distinct (map fst out)"
  by (induction caps arbitrary: seen)
     (auto split: sum.splits option.splits if_splits simp: distinct_update)

lemma dedup_loop_origin:
  "dedup_loop caps seen = Inr out \<Longrightarrow> map_of out k = Some d \<Longrightarrow>
     map_of seen k = Some d \<or> (d \<in> set caps \<and> name_lower d = Inr k)"
proof (induction caps arbitrary: seen)
  case Nil
  then show ?case by simp
next
  case (Cons cap caps)
  then obtain key where key: "name_lower cap = Inr key"
    by (auto split: sum.splits)
  show ?case
  proof (cases "map_of seen key = None \<or> ec_confidence (the (map_of seen key)) < ec_confidence cap")
    case True
    then have "dedup_loop caps (AList.update key cap seen) = Inr out"
      using Cons.prems(1) key by (auto split: option.splits if_splits)
    from Cons.IH [OF this Cons.prems(2)]
    show ?thesis using key by (auto simp: update_conv split: if_splits)
  next
    case False
    then have "dedup_loop caps seen = Inr out"
      using Cons.prems(1) key by (auto split: option.splits if_splits)
    from Cons.IH [OF this Cons.prems(2)] show ?thesis by auto
  qed
qed

lemma dedup_loop_grows:
  "dedup_loop caps seen = Inr out \<Longrightarrow> map_of seen k = Some c \<Longrightarrow>
     \<exists>d. map_of out k = Some d \<and> ec_confidence c \<le> ec_confidence d"
proof (induction caps arbitrary: seen c)
  case Nil
  then show ?case by simp
next
  case (Cons cap caps)
  then obtain key where key: "name_lower cap = Inr key"
    by (auto split: sum.splits)
  show ?case
  proof (cases "map_of seen key = None \<or> ec_confidence (the (map_of seen key)) < ec_confidence cap")
    case True
    then have run: "dedup_loop caps (AList.update key cap seen) = Inr out"
      using Cons.prems(1) key by (auto split: option.splits if_splits)
    show ?thesis
    proof (cases "k = key")
      case True
      have "map_of (AList.update key cap seen) k = Some cap" using True by (simp add: update_conv)
      from Cons.IH [OF run this] obtain d where
        "map_of out k = Some d" "ec_confidence cap \<le> ec_confidence d" by blast
      moreover have "ec_confidence c \<le> ec_confidence cap"
        using \<open>map_of seen key = None \<or> ec_confidence (the (map_of seen key)) < ec_confidence cap\<close>
          Cons.prems(2) True by auto
      ultimately show ?thesis by fastforce
    next
      case False
      then have "map_of (AList.update key cap seen) k = Some c"
        using Cons.prems(2) by (simp add: update_conv)
      from Cons.IH [OF run this] show ?thesis .
    qed
  next
    case False
    then have "dedup_loop caps seen = Inr out"
      using Cons.prems(1) key by (auto split: option.splits if_splits)
    from Cons.IH [OF this Cons.prems(2)] show ?thesis .
  qed
qed

lemma dedup_loop_covers:
  "dedup_loop caps seen = Inr out \<Longrightarrow> c \<in> set caps \<Longrightarrow> name_lower c = Inr k \<Longrightarrow>
     \<exists>d. map_of out k = Some d \<and> ec_confidence c \<le> ec_confidence d"
proof (induction caps arbitrary: seen)
  case Nil
  then show ?case by simp
next
  case (Cons cap caps)
  then obtain key where key: "name_lower cap = Inr key"
    by (auto split: sum.splits)
  show ?case
  proof (cases "map_of seen key = None \<or> ec_confidence (the (map_of seen key)) < ec_confidence cap")
    case True
    then have run: "dedup_loop caps (AList.update key cap seen) = Inr out"
      using Cons.prems(1) key by (auto split: option.splits if_splits)
    show ?thesis
    proof (cases "c = cap")
      case True
      then have "k = key" using key Cons.prems(3) by simp
      then have "map_of (AList.update key cap seen) k = Some cap" by (simp add: update_conv)
      from dedup_loop_grows [OF run this] show ?thesis using True by simp
    next
      case False
      then have "c \<in> set caps" using Cons.prems(2) by simp
      from Cons.IH [OF run this Cons.prems(3)] show ?thesis .
    qed
  next
    case False
    then have run: "dedup_loop caps seen = Inr out"
      using Cons.prems(1) key by (auto split: option.splits if_splits)
    show ?thesis
    proof (cases "c = cap")
      case True
      then have "k = key" using key Cons.prems(3) by simp
      with False obtain old where old: "map_of seen k = Some old"
        and le: "ec_confidence cap \<le> ec_confidence old" by (auto simp: not_less)
      from dedup_loop_grows [OF run old] obtain d where
        "map_of out k = Some d" "ec_confidence old \<le> ec_confidence d" by blast
      with le True show ?thesis by fastforce
    next
      case False
      then have "c \<in> set caps" using Cons.prems(2) by simp
      from Cons.IH [OF run this Cons.prems(3)] show ?thesis .
    qed
  qed
qed

lemma dedup_loop_first_max:
  "dedup_loop caps seen = Inr out \<Longrightarrow> map_of out k = Some d \<Longrightarrow>
     (map_of seen k = Some d
        \<and> (\<forall>c \<in> set caps. name_lower c = Inr k \<longrightarrow> ec_confidence c \<le> ec_confidence d))
     \<or> (\<exists>pre post. caps = pre @ d # post \<and> name_lower d = Inr k
           \<and> (\<forall>old. map_of seen k = Some old \<longrightarrow> ec_confidence old < ec_confidence d)
           \<and> (\<forall>c \<in> set pre. name_lower c = Inr k \<longrightarrow> ec_confidence c < ec_confidence d)
           \<and> (\<forall>c \<in> set post. name_lower c = Inr k \<longrightarrow> ec_confidence c \<le> ec_confidence d))"
proof (induction caps arbitrary: seen)
  case Nil
  then show ?case by simp
next
  case (Cons cap caps)
  then obtain key where key: "name_lower cap = Inr key"
    by (auto split: sum.splits)
  let ?upd = "map_of seen key = None \<or> ec_confidence (the (map_of seen key)) < ec_confidence cap"
  show ?case
  proof (cases ?upd)
    case True
    then have run: "dedup_loop caps (AList.update key cap seen) = Inr out"
      using Cons.prems(1) key by (auto split: option.splits if_splits)
    from Cons.IH [OF run Cons.prems(2)]
    consider
      (kept) "map_of (AList.update key cap seen) k = Some d"
        "\<forall>c \<in> set caps. name_lower c = Inr k \<longrightarrow> ec_confidence c \<le> ec_confidence d"
    | (later) pre post where "caps = pre @ d # post" "name_lower d = Inr k"
        "\<forall>old. map_of (AList.update key cap seen) k = Some old \<longrightarrow> ec_confidence old < ec_confidence d"
        "\<forall>c \<in> set pre. name_lower c = Inr k \<longrightarrow> ec_confidence c < ec_confidence d"
        "\<forall>c \<in> set post. name_lower c = Inr k \<longrightarrow> ec_confidence c \<le> ec_confidence d"
      by blast
    then show ?thesis
    proof cases
      case kept
      show ?thesis
      proof (cases "k = key")
        case True
        with kept(1) have d: "d = cap" by (simp add: update_conv)
        have "cap # caps = [] @ d # caps" using d by simp
        moreover have "name_lower d = Inr k" using d key True by simp
        moreover have "\<forall>old. map_of seen k = Some old \<longrightarrow> ec_confidence old < ec_confidence d"
          using \<open>?upd\<close> True d by auto
        ultimately show ?thesis using kept(2) by fastforce
      next
        case False
        with kept(1) have "map_of seen k = Some d" by (simp add: update_conv)
        moreover have "\<forall>c \<in> set (cap # caps). name_lower c = Inr k \<longrightarrow> ec_confidence c \<le> ec_confidence d"
          using kept(2) False key by auto
        ultimately show ?thesis by blast
      qed
    next
      case later
      have 1: "cap # caps = (cap # pre) @ d # post" using later(1) by simp
      have 2: "\<forall>old. map_of seen k = Some old \<longrightarrow> ec_confidence old < ec_confidence d"
      proof (intro allI impI)
        fix old assume old: "map_of seen k = Some old"
        show "ec_confidence old < ec_confidence d"
        proof (cases "k = key")
          case True
          then have "ec_confidence old < ec_confidence cap" using \<open>?upd\<close> old by auto
          moreover have "ec_confidence cap < ec_confidence d"
            using later(3) True by (simp add: update_conv)
          ultimately show ?thesis by simp
        next
          case False
          then show ?thesis using later(3) old by (simp add: update_conv)
        qed
      qed
      have 3: "\<forall>c \<in> set (cap # pre). name_lower c = Inr k \<longrightarrow> ec_confidence c < ec_confidence d"
        using later(3,4) key by (auto simp: update_conv)
      show ?thesis using 1 2 3 later(2,5) by blast
    qed
  next
    case False
    then obtain old0 where old0: "map_of seen key = Some old0"
      and le0: "ec_confidence cap \<le> ec_confidence old0" by (auto simp: not_less)
    from False have run: "dedup_loop caps seen = Inr out"
      using Cons.prems(1) key by (auto split: option.splits if_splits)
    from Cons.IH [OF run Cons.prems(2)]
    consider
      (kept) "map_of seen k = Some d"
        "\<forall>c \<in> set caps. name_lower c = Inr k \<longrightarrow> ec_confidence c \<le> ec_confidence d"
    | (later) pre post where "caps = pre @ d # post" "name_lower d = Inr k"
        "\<forall>old. map_of seen k = Some old \<longrightarrow> ec_confidence old < ec_confidence d"
        "\<forall>c \<in> set pre. name_lower c = Inr k \<longrightarrow> ec_confidence c < ec_confidence d"
        "\<forall>c \<in> set post. name_lower c = Inr k \<longrightarrow> ec_confidence c \<le> ec_confidence d"
      by blast
    then show ?thesis
    proof cases
      case kept
      have "\<forall>c \<in> set (cap # caps). name_lower c = Inr k \<longrightarrow> ec_confidence c \<le> ec_confidence d"
        using kept key old0 le0 by auto
      with kept(1) show ?thesis by blast
    next
      case later
      have 1: "cap # caps = (cap # pre) @ d # post" using later(1) by simp
      have 3: "\<forall>c \<in> set (cap # pre). name_lower c = Inr k \<longrightarrow> ec_confidence c < ec_confidence d"
        using later(3,4) key old0 le0 by auto
      show ?thesis using 1 3 later(2,3,5) by blast
    qed
  qed
qed

lemma name_lower_str:
  "is_str (ec_name c) \<Longrightarrow> \<exists>k. name_lower c = Inr k"
  by (cases "ec_name c") (simp_all add: name_lower_def)

lemma dedup_loop_total:
  "\<forall>c \<in> set caps. is_str (ec_name c) \<Longrightarrow> \<exists>out. dedup_loop caps seen = Inr out"
proof (induction caps arbitrary: seen)
  case Nil
  show ?case by simp
next
  case (Cons cap caps)
  then obtain key where key: "name_lower cap = Inr key"
    using name_lower_str [of cap] by auto
  from Cons.prems have rest: "\<forall>c \<in> set caps. is_str (ec_name c)" by simp
  show ?case
    using Cons.IH [OF rest, of seen] Cons.IH [OF rest, of "AList.update key cap seen"] key
    by (auto split: option.splits)
qed

lemma dedup_result:
  assumes run: "dedup_loop caps [] = Inr al"
  shows "distinct (map fst al)"
    and "(k, d) \<in> set al \<Longrightarrow> d \<in> set caps \<and> name_lower d = Inr k"
    and "c \<in> set caps \<Longrightarrow> name_lower c = Inr k \<Longrightarrow>
           \<exists>d. (k, d) \<in> set al \<and> ec_confidence c \<le> ec_confidence d"
proof -
  show dist: "distinct (map fst al)"
    using dedup_loop_distinct [OF run] by simp
  show "d \<in> set caps \<and> name_lower d = Inr k" if "(k, d) \<in> set al"
  proof -
    from that dist have "map_of al k = Some d" by simp
    from dedup_loop_origin [OF run this] show ?thesis by simp
  qed
  show "\<exists>d. (k, d) \<in> set al \<and> ec_confidence c \<le> ec_confidence d"
    if "c \<in> set caps" "name_lower c = Inr k"
  proof -
    from dedup_loop_covers [OF run that] obtain d where
      "map_of al k = Some d" "ec_confidence c \<le> ec_confidence d" by blast
    then show ?thesis using map_of_SomeD by fastforce
  qed
qed

lemma is_ascii_str_is_str: "is_ascii_str v \<Longrightarrow> is_str v"
  by (cases v) simp_all

lemma dedup_result_first:
  assumes run: "dedup_loop caps [] = Inr al" and mem: "(k, d) \<in> set al"
  shows "\<exists>pre post. caps = pre @ d # post
           \<and> (\<forall>c \<in> set pre. name_lower c = Inr k \<longrightarrow> ec_confidence c < ec_confidence d)
           \<and> (\<forall>c \<in> set post. name_lower c = Inr k \<longrightarrow> ec_confidence c \<le> ec_confidence d)"
proof -
  have "map_of al k = Some d"
    using dedup_result(1) [OF run] mem by simp
  from dedup_loop_first_max [OF run this] show ?thesis by auto
qed

text \<open>
  C1 as stated fails on the document parser, which runs no deduplication over the
  capability list of a profile: \<open>_extract_structured_fields\<close> appends one capability for
  every item of a structured field, and the equipment loop of \<open>_extract_from_notes\<close> one
  for every match in the notes. For the equipment field "MRI, mri" the capability list of facility FAC042 holds
  two entries of lowercased name "mri"; for equipment "MRI, ICU" with the note
  "Our MRI broke down last month" it holds two as well, of confidence 0.95 and 0.8.
\<close>

theorem parser_capabilities_counterexample:
  "map (\<lambda>c. (mc_facility_id c, name c, lower (name c), confidence c))
       (extracted_capabilities ''FAC042'' ''District Hospital'' repeated_fields)
     = [(''FAC042'', ''MRI'', ''mri'', 95 / 100), (''FAC042'', ''mri'', ''mri'', 95 / 100)]
   \<and> map (\<lambda>c. (mc_facility_id c, lower (name c), confidence c))
       (filter (\<lambda>c. lower (name c) = ''mri'')
          (extracted_capabilities ''FAC042'' ''District Hospital'' mri_fields))
     = [(''FAC042'', ''mri'', 95 / 100), (''FAC042'', ''mri'', 8 / 10)]
   \<and> \<not> distinct (map (\<lambda>c. (mc_facility_id c, lower (name c)))
                    (extracted_capabilities ''FAC042'' ''District Hospital'' repeated_fields))
   \<and> \<not> distinct (map (\<lambda>c. (mc_facility_id c, lower (name c)))
                    (extracted_capabilities ''FAC042'' ''District Hospital'' mri_fields))"
  by code_simp

text \<open>
  C1, amended. For every facility processed by the extraction agent, each of its capability
  lists (procedures, equipment, specialties) is the result of \<open>_deduplicate_capabilities\<close>
  on the candidates of that list. When every candidate's name is a string of ASCII
  characters the call returns, no two entries of the result have the same lowercased name,
  every entry is one of the candidates, every candidate's name is represented, and the
  entry retained for a name is the first candidate, in extraction order, whose confidence is
  the maximum among the candidates with that name: every candidate of that name before it
  has a strictly smaller confidence, every one after it a smaller or equal one.
\<close>

theorem deduplicate_keeps_first_max_confidence:
  "\<forall>c \<in> set caps. is_ascii_str (ec_name c) \<Longrightarrow>
   \<exists>out. deduplicate_capabilities caps = Inr out
     \<and> distinct (map name_lower out)
     \<and> set out \<subseteq> set caps
     \<and> name_lower ` set out = name_lower ` set caps
     \<and> (\<forall>d \<in> set out. \<forall>c \<in> set caps.
           name_lower c = name_lower d \<longrightarrow> ec_confidence c \<le> ec_confidence d)
     \<and> (\<forall>d \<in> set out. \<exists>pre post. caps = pre @ d # post
           \<and> (\<forall>c \<in> set pre. name_lower c = name_lower d
                  \<longrightarrow> ec_confidence c < ec_confidence d)
           \<and> (\<forall>c \<in> set post. name_lower c = name_lower d
                  \<longrightarrow> ec_confidence c \<le> ec_confidence d))"
proof -
  assume ascii: "\<forall>c \<in> set caps. is_ascii_str (ec_name c)"
  then have strs: "\<forall>c \<in> set caps. is_str (ec_name c)"
    using is_ascii_str_is_str by blast
  from dedup_loop_total [OF strs] obtain al where run: "dedup_loop caps [] = Inr al" by blast
  note r = dedup_result [OF run]
  let ?out = "map snd al"
  have res: "deduplicate_capabilities caps = Inr ?out"
    by (simp add: deduplicate_capabilities_def run)
  have keys: "map name_lower ?out = map Inr (map fst al)"
    using r(2) by (auto simp: map_eq_conv)
  have d: "distinct (map name_lower ?out)"
    unfolding keys using r(1) by (auto simp: distinct_map inj_on_def)
  have sub: "set ?out \<subseteq> set caps"
    using r(2) by auto
  have cover: "name_lower ` set caps \<subseteq> name_lower ` set ?out"
  proof
    fix x assume "x \<in> name_lower ` set caps"
    then obtain c where c: "c \<in> set caps" and x: "x = name_lower c" by blast
    from strs c name_lower_str obtain k where k: "name_lower c = Inr k" by blast
    from r(3) [OF c k] obtain e where e: "(k, e) \<in> set al" by blast
    then have "e \<in> set ?out" by force
    moreover have "name_lower e = Inr k" using r(2) [OF e] by simp
    ultimately show "x \<in> name_lower ` set ?out" using x k by force
  qed
  have mx: "\<forall>d \<in> set ?out. \<forall>c \<in> set caps.
           name_lower c = name_lower d \<longrightarrow> ec_confidence c \<le> ec_confidence d"
  proof (intro ballI impI)
    fix e c assume e: "e \<in> set ?out" and c: "c \<in> set caps"
      and same: "name_lower c = name_lower e"
    from e obtain k where ke: "(k, e) \<in> set al" by auto
    then have "name_lower e = Inr k" using r(2) by simp
    with same have "name_lower c = Inr k" by simp
    from r(3) [OF c this] obtain e' where e': "(k, e') \<in> set al"
      and le: "ec_confidence c \<le> ec_confidence e'" by blast
    from ke e' r(1) have "e' = e" by (meson eq_key_imp_eq_value)
    with le show "ec_confidence c \<le> ec_confidence e" by simp
  qed
  have first: "\<forall>d \<in> set ?out. \<exists>pre post. caps = pre @ d # post
           \<and> (\<forall>c \<in> set pre. name_lower c = name_lower d
                  \<longrightarrow> ec_confidence c < ec_confidence d)
           \<and> (\<forall>c \<in> set post. name_lower c = name_lower d
                  \<longrightarrow> ec_confidence c \<le> ec_confidence d)"
  proof
    fix e assume "e \<in> set ?out"
    then obtain k where ke: "(k, e) \<in> set al" by auto
    then have "name_lower e = Inr k" using r(2) by simp
    with dedup_result_first [OF run ke] show "\<exists>pre post. caps = pre @ e # post
           \<and> (\<forall>c \<in> set pre. name_lower c = name_lower e
                  \<longrightarrow> ec_confidence c < ec_confidence e)
           \<and> (\<forall>c \<in> set post. name_lower c = name_lower e
                  \<longrightarrow> ec_confidence c \<le> ec_confidence e)"
      by simp
  qed
  have "name_lower ` set ?out = name_lower ` set caps"
    using sub cover by blast
  with res d sub mx first show ?thesis by blast
qed

theorem deduplicate_keeps_first_max_confidence_witness:
  "list_all (\<lambda>c. is_ascii_str (ec_name c))
      [rule_procedure ''Bypass'' ''first mention'',
       llm_procedure (PyStr ''cesarean'') PyNone PyNone,
       rule_procedure ''bypass'' ''second mention'',
       rule_procedure ''Cesarean'' ''cesarean sections'']
   \<and> deduplicate_capabilities
        [rule_procedure ''Bypass'' ''first mention'',
         llm_procedure (PyStr ''cesarean'') PyNone PyNone,
         rule_procedure ''bypass'' ''second mention'',
         rule_procedure ''Cesarean'' ''cesarean sections'']
     = Inr [rule_procedure ''Bypass'' ''first mention'',
            rule_procedure ''Cesarean'' ''cesarean sections'']
   \<and> (\<exists>out. deduplicate_capabilities
               [rule_procedure ''Bypass'' ''first mention'',
                llm_procedure (PyStr ''cesarean'') PyNone PyNone,
                rule_procedure ''bypass'' ''second mention'',
                rule_procedure ''Cesarean'' ''cesarean sections''] = Inr out
          \<and> distinct (map name_lower out))"
proof -
  let ?caps = "[rule_procedure ''Bypass'' ''first mention'',
                llm_procedure (PyStr ''cesarean'') PyNone PyNone,
                rule_procedure ''bypass'' ''second mention'',
                rule_procedure ''Cesarean'' ''cesarean sections'']"
  have h: "\<forall>c \<in> set ?caps. is_ascii_str (ec_name c)"
    by (simp add: llm_procedure_def rule_procedure_def)
  have h': "list_all (\<lambda>c. is_ascii_str (ec_name c)) ?caps"
    by (simp add: llm_procedure_def rule_procedure_def)
  have run: "deduplicate_capabilities ?caps
             = Inr [rule_procedure ''Bypass'' ''first mention'',
                    rule_procedure ''Cesarean'' ''cesarean sections'']"
    by code_simp
  show ?thesis using h' run deduplicate_keeps_first_max_confidence [OF h] by blast
qed

section \<open>The provider path of the procedure extraction\<close>

lemma llm_short_text:
  "length text < 20 \<Longrightarrow>
     llm_extract_procedures create json_loads text s
       = \<lparr>returned = Inr [], provider_state = s, printed = []\<rparr>"
  by (simp add: llm_extract_procedures_def)

lemma llm_long_text:
  "20 \<le> length text \<Longrightarrow>
     llm_extract_procedures create json_loads text s
       = (case create (extraction_prompt text) s of
            (Inl e, s') \<Rightarrow>
              \<lparr>returned = Inr [], provider_state = s',
               printed = [''LLM extraction error: '' @ exc_message e]\<rparr>
          | (Inr content, s') \<Rightarrow>
              (case response_text content of
                 Inl e \<Rightarrow>
                   \<lparr>returned = Inr [], provider_state = s',
                    printed = [''LLM extraction error: '' @ exc_message e]\<rparr>
               | Inr txt \<Rightarrow>
                   \<lparr>returned = Inr (parse_procedures json_loads txt), provider_state = s',
                    printed = []\<rparr>))"
  by (auto simp: llm_extract_procedures_def)

lemma llm_returns:
  "\<exists>caps. returned (llm_extract_procedures create json_loads text s) = Inr caps"
  by (auto simp: llm_extract_procedures_def split: prod.splits sum.splits)

lemma llm_calls_once:
  "20 \<le> length text \<Longrightarrow>
     provider_state (llm_extract_procedures create json_loads text s)
       = snd (create (extraction_prompt text) s)"
  by (auto simp: llm_long_text split: prod.splits sum.splits)

lemma llm_provider_raises:
  "20 \<le> length text \<Longrightarrow> fst (create (extraction_prompt text) s) = Inl e \<Longrightarrow>
     returned (llm_extract_procedures create json_loads text s) = Inr []
     \<and> printed (llm_extract_procedures create json_loads text s)
         = [''LLM extraction error: '' @ exc_message e]"
  by (auto simp: llm_long_text split: prod.splits sum.splits)

lemma llm_no_text:
  "20 \<le> length text \<Longrightarrow> fst (create (extraction_prompt text) s) = Inr content \<Longrightarrow>
     response_text content = Inl e \<Longrightarrow>
     returned (llm_extract_procedures create json_loads text s) = Inr []"
  by (auto simp: llm_long_text split: prod.splits sum.splits)

lemma llm_parsed:
  "20 \<le> length text \<Longrightarrow> fst (create (extraction_prompt text) s) = Inr content \<Longrightarrow>
     response_text content = Inr txt \<Longrightarrow>
     returned (llm_extract_procedures create json_loads text s)
       = Inr (parse_procedures json_loads txt)"
  by (auto simp: llm_long_text split: prod.splits sum.splits)

lemma parse_unparseable:
  "json_loads txt = Inl e \<Longrightarrow> parse_procedures json_loads txt = []"
  by (simp add: parse_procedures_def)

lemma parse_malformed:
  "json_loads txt = Inr v \<Longrightarrow>
     py_iter v = Inl e \<or> (\<exists>items. py_iter v = Inr items \<and> comprehension items = Inl e) \<Longrightarrow>
     parse_procedures json_loads txt = []"
  by (auto simp: parse_procedures_def)

text \<open>
  C8. For every text, every provider and every parser, \<open>_llm_extract_procedures\<close> returns
  a list and never raises. For a text shorter than 20 characters the provider is not
  called (its state is unchanged, whatever the provider is), nothing is printed and the
  empty list is returned. For a longer text the provider is called exactly once, and
  the empty list is returned when the provider raises an exception, when its answer
  has no first text block, when the answer is not parseable JSON, and when the parsed value
  is not a sequence of objects with a \<open>name\<close>.
\<close>

theorem llm_extract_procedures_never_raises:
  "(\<exists>caps. returned (llm_extract_procedures create json_loads text s) = Inr caps)
   \<and> (length text < 20 \<longrightarrow>
        llm_extract_procedures create json_loads text s
          = \<lparr>returned = Inr [], provider_state = s, printed = []\<rparr>)
   \<and> (20 \<le> length text \<longrightarrow>
        provider_state (llm_extract_procedures create json_loads text s)
          = snd (create (extraction_prompt text) s))
   \<and> (20 \<le> length text \<longrightarrow> fst (create (extraction_prompt text) s) = Inl e \<longrightarrow>
        returned (llm_extract_procedures create json_loads text s) = Inr [])
   \<and> (20 \<le> length text \<longrightarrow> fst (create (extraction_prompt text) s) = Inr content \<longrightarrow>
        response_text content = Inl e \<longrightarrow>
        returned (llm_extract_procedures create json_loads text s) = Inr [])
   \<and> (20 \<le> length text \<longrightarrow> fst (create (extraction_prompt text) s) = Inr content \<longrightarrow>
        response_text content = Inr txt \<longrightarrow> json_loads txt = Inl e \<longrightarrow>
        returned (llm_extract_procedures create json_loads text s) = Inr [])
   \<and> (20 \<le> length text \<longrightarrow> fst (create (extraction_prompt text) s) = Inr content \<longrightarrow>
        response_text content = Inr txt \<longrightarrow> json_loads txt = Inr v \<longrightarrow>
        py_iter v = Inl e \<or> (\<exists>items. py_iter v = Inr items \<and> comprehension items = Inl e) \<longrightarrow>
        returned (llm_extract_procedures create json_loads text s) = Inr [])"
proof (intro conjI impI)
  show "\<exists>caps. returned (llm_extract_procedures create json_loads text s) = Inr caps"
    by (rule llm_returns)
next
  assume "length text < 20"
  then show "llm_extract_procedures create json_loads text s
               = \<lparr>returned = Inr [], provider_state = s, printed = []\<rparr>"
    by (rule llm_short_text)
next
  assume "20 \<le> length text"
  then show "provider_state (llm_extract_procedures create json_loads text s)
               = snd (create (extraction_prompt text) s)"
    by (rule llm_calls_once)
next
  assume "20 \<le> length text" "fst (create (extraction_prompt text) s) = Inl e"
  then show "returned (llm_extract_procedures create json_loads text s) = Inr []"
    by (simp add: llm_provider_raises [where e = e])
next
  assume "20 \<le> length text" "fst (create (extraction_prompt text) s) = Inr content"
    "response_text content = Inl e"
  then show "returned (llm_extract_procedures create json_loads text s) = Inr []"
    by (rule llm_no_text)
next
  assume "20 \<le> length text" "fst (create (extraction_prompt text) s) = Inr content"
    "response_text content = Inr txt" "json_loads txt = Inl e"
  then show "returned (llm_extract_procedures create json_loads text s) = Inr []"
    by (simp add: llm_parsed parse_unparseable)
next
  assume "20 \<le> length text" "fst (create (extraction_prompt text) s) = Inr content"
    "response_text content = Inr txt" "json_loads txt = Inr v"
    "py_iter v = Inl e \<or> (\<exists>items. py_iter v = Inr items \<and> comprehension items = Inl e)"
  then show "returned (llm_extract_procedures create json_loads text s) = Inr []"
    by (simp add: llm_parsed parse_malformed)
qed

theorem llm_extract_procedures_never_raises_witness:
  "llm_extract_procedures unavailable_provider no_json ''cesarean sections'' 0
     = \<lparr>returned = Inr [], provider_state = 0, printed = []\<rparr>
   \<and> returned (llm_extract_procedures unavailable_provider no_json
                  ''Performs cesarean sections daily'' 0) = Inr []
   \<and> provider_state (llm_extract_procedures unavailable_provider no_json
                        ''Performs cesarean sections daily'' 0) = 1
   \<and> returned (llm_extract_procedures (answering_provider ''I found no procedures.'') no_json
                  ''Performs cesarean sections daily'' 0) = Inr []"
proof -
  let ?long = "''Performs cesarean sections daily''"
  have short: "length ''cesarean sections'' < 20" by simp
  have long: "20 \<le> length ?long" by simp
  have down: "fst (unavailable_provider (extraction_prompt ?long) 0)
                = Inl (Exc ''APIConnectionError'' ''Connection error.'')"
    by (simp add: unavailable_provider_def)
  have once: "snd (unavailable_provider (extraction_prompt ?long) 0) = 1"
    by (simp add: unavailable_provider_def)
  have answer: "fst (answering_provider ''I found no procedures.'' (extraction_prompt ?long) 0)
                  = Inr [TextBlock ''I found no procedures.'']"
    by (simp add: answering_provider_def)
  have stripped: "response_text [TextBlock ''I found no procedures.'']
                    = Inr ''I found no procedures.''"
    by code_simp
  have bad: "no_json ''I found no procedures.''
               = Inl (Exc ''JSONDecodeError'' ''Expecting value: line 1 column 1 (char 0)'')"
    by (simp add: no_json_def)
  show ?thesis
    using short long down once answer stripped bad
      llm_extract_procedures_never_raises
        [of unavailable_provider no_json "''cesarean sections''" 0]
      llm_extract_procedures_never_raises
        [of unavailable_provider no_json ?long 0
            "Exc ''APIConnectionError'' ''Connection error.''"]
      llm_extract_procedures_never_raises
        [of "answering_provider ''I found no procedures.''" no_json ?long 0
            "Exc ''JSONDecodeError'' ''Expecting value: line 1 column 1 (char 0)''"
            "[TextBlock ''I found no procedures.'']" "''I found no procedures.''"]
    by simp
qed

section \<open>Failure of a pipeline state\<close>

lemma invoke_append:
  "invoke (xs @ ys) st = (case invoke xs st of Inl e \<Rightarrow> Inl e | Inr st' \<Rightarrow> invoke ys st')"
  by (induction xs arbitrary: st) (auto split: sum.splits)

lemma invoke_raises:
  assumes "i < length ns" and "invoke (take i ns) st0 = Inr st" and "(ns ! i) st = Inl e"
  shows "invoke ns st0 = Inl e"
proof -
  have "ns = take i ns @ (ns ! i) # drop (Suc i) ns"
    using assms(1) by (simp add: id_take_nth_drop)
  then have "invoke ns st0 = invoke (take i ns @ (ns ! i) # drop (Suc i) ns) st0"
    by simp
  also have "\<dots> = Inl e"
    using assms(2,3) by (simp add: invoke_append)
  finally show ?thesis .
qed

lemma length_build_graph: "length (build_graph ns) = 4"
  by (simp add: build_graph_def)

text \<open>
  C9. For every query, every data set and every behaviour of the four states: if one of
  the four states raises an exception \<open>e\<close> on the state that the states before it
  produced, \<open>process_query\<close> does not raise; it returns the error result with exactly the
  keys \<open>error\<close>, \<open>query\<close> and \<open>processing_time_ms\<close>. \<open>error\<close> is the message of \<open>e\<close>, the time is
  the elapsed time between the two clock readings in milliseconds, and the keys
  \<open>response\<close>, \<open>matching_facilities\<close> and \<open>analysis_results\<close> (as every other key of the
  normal output) are absent.
\<close>

theorem process_query_error_result:
  "i < 4 \<Longrightarrow> invoke (take i (build_graph ns)) (initial_state q rows) = Inr st \<Longrightarrow>
   (build_graph ns ! i) st = Inl e \<Longrightarrow>
   \<exists>r. process_query ns report q rows now = Inr r
     \<and> r = [(''error'', OutStr (exc_message e)), (''query'', OutStr q),
            (''processing_time_ms'', OutFloat ((now 1 - now 0) * 1000))]
     \<and> map fst r = [''error'', ''query'', ''processing_time_ms'']
     \<and> map_of r ''response'' = None
     \<and> map_of r ''matching_facilities'' = None
     \<and> map_of r ''analysis_results'' = None"
proof -
  assume i: "i < 4"
    and before: "invoke (take i (build_graph ns)) (initial_state q rows) = Inr st"
    and raises: "(build_graph ns ! i) st = Inl e"
  from i have "i < length (build_graph ns)" by (simp add: length_build_graph)
  from invoke_raises [OF this before raises]
  have "process_query ns report q rows now
          = Inr (error_result e q ((now 1 - now 0) * 1000))"
    by (simp add: process_query_def)
  then show ?thesis by (simp add: error_result_def)
qed

theorem process_query_error_result_witness:
  "process_query failing_pipeline plain_report
     ''Which hospitals can perform cardiac surgery in Greater Accra?'' [] example_clock
     = Inr [(''error'', OutStr ([CHR 0x27] @ ''facility_id'' @ [CHR 0x27])),
            (''query'', OutStr ''Which hospitals can perform cardiac surgery in Greater Accra?''),
            (''processing_time_ms'', OutFloat 250)]
   \<and> (\<exists>r. process_query failing_pipeline plain_report
              ''Which hospitals can perform cardiac surgery in Greater Accra?'' [] example_clock
              = Inr r
         \<and> map_of r ''response'' = None)"
proof -
  let ?q = "''Which hospitals can perform cardiac surgery in Greater Accra?''"
  let ?e = "Exc ''KeyError'' ([CHR 0x27] @ ''facility_id'' @ [CHR 0x27])"
  obtain st :: "(unit, unit, unit, unit) AgentState"
    where first: "understand_query_node ''2024-01-01T00:00:00'' (initial_state ?q []) = Inr st"
    by (simp add: understand_query_node_def case_prod_beta Let_def)
  have before: "invoke (take 1 (build_graph failing_pipeline)) (initial_state ?q []) = Inr st"
    using first by (simp add: build_graph_def failing_pipeline_def)
  have raises: "(build_graph failing_pipeline ! 1) st = Inl ?e"
    by (simp add: build_graph_def failing_pipeline_def)
  have elapsed: "(example_clock 1 - example_clock 0) * 1000 = 250"
    by (simp add: example_clock_def)
  have "(1::nat) < 4" by simp
  from process_query_error_result [OF this before raises, of plain_report example_clock]
  show ?thesis using elapsed by (auto simp: exc_message_def)
qed

end
